theory Spec2Isabelle
  imports Main "HOL-Library.Sublist"
begin

section \<open>Python values used by encode.py\<close>

text \<open>
  Python strings are modelled as \<^typ>\<open>string\<close>: lists of characters with code points below 256.
  \<open>sep.join(xs)\<close> is \<open>str_join sep xs\<close>, \<open>str(n)\<close> on an integer is \<open>str_int n\<close>.
\<close>

fun str_join :: "string \<Rightarrow> string list \<Rightarrow> string" where
  "str_join sep [] = []"
| "str_join sep [s] = s"
| "str_join sep (s # t # ts) = s @ sep @ str_join sep (t # ts)"

definition digit_char :: "nat \<Rightarrow> char" where
  "digit_char d = ''0123456789'' ! d"

function str_nat :: "nat \<Rightarrow> string" where
  "str_nat n = (if n < 10 then [digit_char n] else str_nat (n div 10) @ [digit_char (n mod 10)])"
  by pat_completeness auto
termination
  by (relation "measure (\<lambda>n. n)") auto

declare str_nat.simps [simp del]

definition str_int :: "int \<Rightarrow> string" where
  "str_int i = (if i < 0 then CHR ''-'' # str_nat (nat (- i)) else str_nat (nat i))"

text \<open>
  The truth value of an argument that is either \<open>None\<close> or a string, as tested by
  \<open>if soft_sub:\<close> and \<open>if burn_sub:\<close>: \<open>None\<close> and the empty string are false.
\<close>

definition truthy :: "string option \<Rightarrow> bool" where
  "truthy v = (case v of None \<Rightarrow> False | Some s \<Rightarrow> s \<noteq> [])"

text \<open>The single quote character of the f-strings in \<open>encode_video\<close>.\<close>

definition quote :: string where
  "quote = [CHR 0x27]"

text \<open>\<open>os.path.join(a, b)\<close> of posixpath, for two components.\<close>

definition os_path_join :: "string \<Rightarrow> string \<Rightarrow> string" where
  "os_path_join a b =
     (if b \<noteq> [] \<and> hd b = CHR ''/'' then b
      else if a = [] \<or> last a = CHR ''/'' then a @ b
      else a @ ''/'' @ b)"

section \<open>The command line\<close>

text \<open>
  The parser is declared in encode.py with \<open>argparse\<close>: two positionals (\<open>input\<close>, \<open>output\<close>),
  nine options that store one argument (three of them converted with \<open>int\<close>), \<open>--resolutions\<close>
  with \<open>nargs='+'\<close> and \<open>choices\<close>, the mutually exclusive group of \<open>--soft\<close> and \<open>--burn\<close>,
  and the \<open>-h\<close>/\<open>--help\<close> option that \<open>ArgumentParser\<close> adds by default. The functions below
  follow \<open>ArgumentParser.parse_args\<close> of CPython 3.11.10 for this parser. Releases of argparse
  differ in how they read a cluster of short flags (see \<open>short_flags\<close> below); the parser
  declares no short option of its own, so only strings that start with \<open>-h\<close> are concerned.
\<close>

subsection \<open>The conversion \<open>int\<close>\<close>

definition py_isspace :: "char \<Rightarrow> bool" where
  "py_isspace c = ((of_char c :: nat) \<in> {9, 10, 11, 12, 13, 32, 133, 160})"

definition py_isdigit :: "char \<Rightarrow> bool" where
  "py_isdigit c = (48 \<le> (of_char c :: nat) \<and> (of_char c :: nat) \<le> 57)"

definition digit_value :: "char \<Rightarrow> nat" where
  "digit_value c = of_char c - 48"

text \<open>Decimal digits, single underscores allowed between two digits.\<close>

fun digits_body :: "nat \<Rightarrow> string \<Rightarrow> nat option" where
  "digits_body acc [] = Some acc"
| "digits_body acc (c # cs) =
     (if py_isdigit c then digits_body (10 * acc + digit_value c) cs
      else if c = CHR ''_'' then
        (case cs of
           [] \<Rightarrow> None
         | d # ds \<Rightarrow> if py_isdigit d then digits_body (10 * acc + digit_value d) ds else None)
      else None)"

text \<open>
  \<open>int(s)\<close>: surrounding whitespace is skipped, then an optional sign and the digits.
  \<open>None\<close> stands for \<open>ValueError\<close>, which is also raised for more than 4300 digits.
\<close>

definition py_int :: "string \<Rightarrow> int option" where
  "py_int s =
     (let t = rev (dropWhile py_isspace (rev (dropWhile py_isspace s)));
          negative = (t \<noteq> [] \<and> hd t = CHR ''-'');
          u = (if t \<noteq> [] \<and> (hd t = CHR ''-'' \<or> hd t = CHR ''+'') then tl t else t)
      in case u of
           [] \<Rightarrow> None
         | c # cs \<Rightarrow>
             if py_isdigit c \<and> length (filter py_isdigit u) \<le> 4300
             then map_option (\<lambda>n. if negative then - int n else int n) (digits_body (digit_value c) cs)
             else None)"

subsection \<open>The declared arguments\<close>

text \<open>
  The options that store exactly one argument are \<open>Store d\<close>; \<open>--resolutions\<close> stores a list;
  the two positionals are handled by the functions that consume them.
\<close>

datatype dest = X | Y | Fontsize | Fontcolor | Pix_fmt | Soft | Burn | Lang | Watermark

datatype action = Help_action | Store dest | Store_resolutions

definition option_string_actions :: "(string \<times> action) list" where
  "option_string_actions =
     [(''-h'', Help_action), (''--help'', Help_action),
      (''--x'', Store X), (''--y'', Store Y), (''--fontsize'', Store Fontsize),
      (''--fontcolor'', Store Fontcolor), (''--pix_fmt'', Store Pix_fmt),
      (''--soft'', Store Soft), (''--burn'', Store Burn),
      (''--lang'', Store Lang), (''--watermark'', Store Watermark),
      (''--resolutions'', Store_resolutions)]"

definition choices :: "string list" where
  "choices = [''all'', ''1080p'', ''720p'', ''480p'', ''360p'']"

text \<open>\<open>subs_group\<close>: for each action, the actions it cannot occur with.\<close>

definition action_conflicts :: "dest \<Rightarrow> dest list" where
  "action_conflicts d = (if d = Soft then [Burn] else if d = Burn then [Soft] else [])"

text \<open>
  The value of the \<open>output\<close> positional: a string, or the empty list that \<open>argparse\<close> stores
  when the only string matched for it is a literal \<open>--\<close> following the separator.
\<close>

datatype positional = Str string | Empty_list

fun format_positional :: "positional \<Rightarrow> string" where
  "format_positional (Str s) = s"
| "format_positional Empty_list = ''[]''"

record optionals =
  args_x :: int
  args_y :: int
  args_fontsize :: int
  args_fontcolor :: string
  args_pix_fmt :: string
  args_soft :: "string option"
  args_burn :: "string option"
  args_lang :: string
  args_watermark :: string
  args_resolutions :: "string list"

record args = optionals +
  args_input :: string
  args_output :: positional

definition defaults :: optionals where
  "defaults =
     \<lparr>args_x = 20, args_y = 40, args_fontsize = 30, args_fontcolor = ''white@0.5'',
      args_pix_fmt = ''yuv420p'', args_soft = None, args_burn = None, args_lang = ''ar'',
      args_watermark = ''HALASHOW.COM'', args_resolutions = [''all'']\<rparr>"

section \<open>The observable behaviour of a run\<close>

text \<open>
  A run of the program is observed as the sequence of its effects, in program order:
  lines printed on standard output and on the error stream, and the child processes started
  by \<open>subprocess.run\<close>, each with its argument list and the exit status it returned.
  The two ways \<open>argparse\<close> ends the program print a usage error or the help text.
\<close>

datatype argparse_error =
    Ambiguous_option string
  | Expected_one_argument action
  | Expected_at_least_one_argument action
  | Ignored_explicit_argument action string
  | Invalid_int_value action string
  | Invalid_choice action string
  | Not_allowed_with action action
  | Arguments_required "string list"
  | Unrecognized_arguments "string list"

text \<open>
  \<open>argparse\<close> ends the program in two ways: \<open>parser.error\<close> prints the usage and the message
  on the error stream and exits with status 2; the help action prints the help text and exits
  with status 0.
\<close>

datatype argparse_exit = Exit_help | Exit_error argparse_error

datatype event =
    Print string
  | Print_stderr string
  | Subprocess_run "string list" int
  | Argparse_help
  | Argparse_error argparse_error

fun spawned :: "event list \<Rightarrow> string list list" where
  "spawned [] = []"
| "spawned (Subprocess_run cmd rc # es) = cmd # spawned es"
| "spawned (e # es) = spawned es"

fun returncodes :: "event list \<Rightarrow> int list" where
  "returncodes [] = []"
| "returncodes (Subprocess_run cmd rc # es) = rc # returncodes es"
| "returncodes (e # es) = returncodes es"

text \<open>
  A call either returns or raises \<open>SystemExit\<close> with a status; nothing in encode.py catches it.
\<close>

datatype 'a outcome = Returned 'a | SystemExit int

section \<open>encode\_video\<close>

text \<open>
  The local variables \<open>filters\<close>, \<open>filter_complex\<close> and \<open>ffmpeg_cmd\<close> of \<open>encode_video\<close>,
  each as a function of the parameters it is computed from.
\<close>

definition filters ::
  "string \<Rightarrow> string \<Rightarrow> int \<Rightarrow> int \<Rightarrow> int \<Rightarrow> string \<Rightarrow> string \<Rightarrow> string option \<Rightarrow> string list" where
  "filters font_path text x y fontsize fontcolor resolution burn_sub =
     (let filters0 = [''scale='' @ resolution];
          filters1 = (case burn_sub of
                        None \<Rightarrow> filters0
                      | Some b \<Rightarrow> if b \<noteq> [] then filters0 @ [''subtitles='' @ quote @ b @ quote]
                                  else filters0)
      in filters1 @
         [''drawtext=fontfile='' @ quote @ font_path @ quote @ '':text='' @ quote @ text @ quote
          @ '':x='' @ str_int x @ '':y='' @ str_int y @ '':fontsize='' @ str_int fontsize
          @ '':fontcolor='' @ fontcolor])"

definition filter_complex ::
  "string \<Rightarrow> string \<Rightarrow> int \<Rightarrow> int \<Rightarrow> int \<Rightarrow> string \<Rightarrow> string \<Rightarrow> string option \<Rightarrow> string" where
  "filter_complex font_path text x y fontsize fontcolor resolution burn_sub =
     str_join '','' (filters font_path text x y fontsize fontcolor resolution burn_sub)"

definition ffmpeg_cmd ::
  "string \<Rightarrow> string \<Rightarrow> string \<Rightarrow> string \<Rightarrow> int \<Rightarrow> int \<Rightarrow> int \<Rightarrow> string \<Rightarrow>
   string \<Rightarrow> string \<Rightarrow> string \<Rightarrow> string \<Rightarrow> string \<Rightarrow> int \<Rightarrow>
   string \<Rightarrow> string option \<Rightarrow> string option \<Rightarrow> string \<Rightarrow> string list" where
  "ffmpeg_cmd input_file output_file font_path text x y fontsize fontcolor
              bitrate audio_bitrate maxrate bufsize pix_fmt sample_rate
              resolution soft_sub burn_sub lang =
     [''ffmpeg'', ''-threads'', ''0'', ''-i'', input_file]
     @ (case soft_sub of None \<Rightarrow> [] | Some s \<Rightarrow> if s \<noteq> [] then [''-i'', s] else [])
     @ [''-vf'', filter_complex font_path text x y fontsize fontcolor resolution burn_sub]
     @ [''-map'', ''0:v'', ''-map'', ''0:a'']
     @ (if truthy soft_sub then [''-map'', ''1:0''] else [])
     @ [''-c:v'', ''libx264'',
        ''-profile:v'', ''high'',
        ''-pix_fmt'', pix_fmt,
        ''-b:v'', bitrate,
        ''-maxrate'', maxrate,
        ''-bufsize'', bufsize,
        ''-preset'', ''medium'']
     @ [''-c:a'', ''aac'',
        ''-b:a'', audio_bitrate,
        ''-ar'', str_int sample_rate,
        ''-ac'', ''2'']
     @ (if truthy soft_sub then [''-c:s'', ''mov_text'', ''-metadata:s:s:0'', ''language='' @ lang] else [])
     @ [''-map_metadata'', ''-1'',
        ''-map_chapters'', ''-1'',
        ''-movflags'', ''+faststart'',
        ''-dn'',
        output_file]"

text \<open>
  \<open>encode_video\<close> itself. The child process is the environment: \<open>proc n cmd\<close> is the exit
  status returned by the \<open>n\<close>-th child process of the run (counting from 0) when it is started
  with the argument list \<open>cmd\<close>; \<open>subprocess.run\<close> is taken to start the process and to return
  when it has exited. The events of the call are appended to those of the run so far.
\<close>

definition encode_video ::
  "(nat \<Rightarrow> string list \<Rightarrow> int) \<Rightarrow>
   string \<Rightarrow> string \<Rightarrow> string \<Rightarrow> string \<Rightarrow> int \<Rightarrow> int \<Rightarrow> int \<Rightarrow> string \<Rightarrow>
   string \<Rightarrow> string \<Rightarrow> string \<Rightarrow> string \<Rightarrow> string \<Rightarrow> int \<Rightarrow>
   string \<Rightarrow> string option \<Rightarrow> string option \<Rightarrow> string \<Rightarrow>
   event list \<Rightarrow> unit outcome \<times> event list" where
  "encode_video proc input_file output_file font_path text x y fontsize fontcolor
                bitrate audio_bitrate maxrate bufsize pix_fmt sample_rate
                resolution soft_sub burn_sub lang w =
     (let w1 = w @ [Print (''Processing: '' @ input_file @ '' -> '' @ output_file)];
          cmd = ffmpeg_cmd input_file output_file font_path text x y fontsize fontcolor
                  bitrate audio_bitrate maxrate bufsize pix_fmt sample_rate
                  resolution soft_sub burn_sub lang;
          w2 = w1 @ [Print (''Running FFmpeg:'' @ [CHR 0x0A] @ str_join '' '' cmd)];
          returncode = proc (length (spawned w2)) cmd;
          w3 = w2 @ [Subprocess_run cmd returncode]
      in if returncode \<noteq> 0
         then (SystemExit 1, w3 @ [Print_stderr ''Error: Encoding failed!''])
         else (Returned (), w3))"

section \<open>parse\_args\<close>

subsection \<open>Classifying the argument strings\<close>

text \<open>
  An argument string is an argument (\<open>Arg\<close>) or an option (\<open>Opt\<close>) with the action it selects
  (none for an unknown option), the matched option string, the separator and the explicit
  argument, as in the tuples of \<open>_parse_optional\<close>.
\<close>

datatype tok = Arg string | Opt "action option" string "string option" "string option"

fun is_Opt :: "tok \<Rightarrow> bool" where
  "is_Opt (Opt a os sep ex) = True"
| "is_Opt (Arg s) = False"

fun tok_string :: "tok \<Rightarrow> string" where
  "tok_string (Arg s) = s"
| "tok_string (Opt a os sep ex) = os"

text \<open>\<open>s.partition('=')\<close>: the part before the first \<open>=\<close>, whether there is one, the part after it.\<close>

definition partition_eq :: "string \<Rightarrow> string \<times> bool \<times> string" where
  "partition_eq s =
     (takeWhile (\<lambda>c. c \<noteq> CHR ''='') s, CHR ''='' \<in> set s, drop 1 (dropWhile (\<lambda>c. c \<noteq> CHR ''='') s))"

text \<open>
  \<open>_get_option_tuples\<close>, called on strings of at least two characters that start with \<open>-\<close>:
  the long options that the string abbreviates, or the short option it starts with.
\<close>

definition get_option_tuples ::
  "string \<Rightarrow> (action \<times> string \<times> string option \<times> string option) list" where
  "get_option_tuples option_string =
     (if take 2 option_string = ''--''
      then (case partition_eq option_string of
              (option_prefix, has_sep, explicit_arg) \<Rightarrow>
                concat (map (\<lambda>(os, a).
                               if prefix option_prefix os
                               then [(a, os, if has_sep then Some ''='' else None,
                                             if has_sep then Some explicit_arg else None)]
                               else [])
                            option_string_actions))
      else concat (map (\<lambda>(os, a).
                          if os = take 2 option_string
                          then [(a, os, Some [], Some (drop 2 option_string))]
                          else if prefix option_string os then [(a, os, None, None)]
                          else [])
                       option_string_actions))"

text \<open>
  The pattern \<open>^-\d+$|^-\d*\.\d+$\<close> of \<open>_negative_number_matcher\<close>; \<open>$\<close> also matches before a
  final newline.
\<close>

definition negative_number :: "string \<Rightarrow> bool" where
  "negative_number s =
     (let t = (if s \<noteq> [] \<and> last s = CHR 0x0A then butlast s else s)
      in case t of
           [] \<Rightarrow> False
         | c # r \<Rightarrow>
             c = CHR ''-'' \<and>
             ((r \<noteq> [] \<and> list_all py_isdigit r) \<or>
              (case dropWhile py_isdigit r of
                 [] \<Rightarrow> False
               | d # f \<Rightarrow> d = CHR ''.'' \<and> f \<noteq> [] \<and> list_all py_isdigit f)))"

definition parse_optional :: "string \<Rightarrow> argparse_error + tok" where
  "parse_optional arg_string =
     (if arg_string = [] then Inr (Arg arg_string)
      else if hd arg_string \<noteq> CHR ''-'' then Inr (Arg arg_string)
      else case map_of option_string_actions arg_string of
        Some a \<Rightarrow> Inr (Opt (Some a) arg_string None None)
      | None \<Rightarrow>
          if length arg_string = 1 then Inr (Arg arg_string)
          else case partition_eq arg_string of
            (option_string, has_sep, explicit_arg) \<Rightarrow>
              (case (if has_sep then map_of option_string_actions option_string else None) of
                 Some a \<Rightarrow> Inr (Opt (Some a) option_string (Some ''='') (Some explicit_arg))
               | None \<Rightarrow>
                   (case get_option_tuples arg_string of
                      [] \<Rightarrow>
                        if negative_number arg_string then Inr (Arg arg_string)
                        else if CHR '' '' \<in> set arg_string then Inr (Arg arg_string)
                        else Inr (Opt None arg_string None None)
                    | [(a, os, sep, ex)] \<Rightarrow> Inr (Opt (Some a) os sep ex)
                    | _ \<Rightarrow> Inl (Ambiguous_option arg_string))))"

text \<open>The strings before the first \<open>--\<close> are classified in order; the first error ends the run.\<close>

fun classify :: "string list \<Rightarrow> argparse_error + tok list" where
  "classify [] = Inr []"
| "classify (s # ss) =
     (case parse_optional s of
        Inl e \<Rightarrow> Inl e
      | Inr t \<Rightarrow> (case classify ss of Inl e \<Rightarrow> Inl e | Inr ts \<Rightarrow> Inr (t # ts)))"

subsection \<open>Taking actions\<close>

text \<open>
  The state of \<open>_parse_known_args\<close>: the namespace (the attributes of the options, and the two
  positionals, \<open>None\<close> until they are consumed), \<open>seen_non_default_actions\<close> and \<open>extras\<close>.
  \<open>seen_non_default_actions\<close> is only consulted for the members of the mutually exclusive
  group, and only they are recorded.
\<close>

record pstate =
  namespace :: optionals
  ns_input :: "string option"
  ns_output :: "positional option"
  seen_non_default_actions :: "dest list"
  extras :: "string list"

text \<open>\<open>_get_value\<close> for the action, then \<open>setattr(namespace, dest, value)\<close>.\<close>

fun setattr :: "dest \<Rightarrow> string \<Rightarrow> optionals \<Rightarrow> argparse_error + optionals" where
  "setattr X s ns =
     (case py_int s of None \<Rightarrow> Inl (Invalid_int_value (Store X) s) | Some i \<Rightarrow> Inr (ns\<lparr>args_x := i\<rparr>))"
| "setattr Y s ns =
     (case py_int s of None \<Rightarrow> Inl (Invalid_int_value (Store Y) s) | Some i \<Rightarrow> Inr (ns\<lparr>args_y := i\<rparr>))"
| "setattr Fontsize s ns =
     (case py_int s of None \<Rightarrow> Inl (Invalid_int_value (Store Fontsize) s)
      | Some i \<Rightarrow> Inr (ns\<lparr>args_fontsize := i\<rparr>))"
| "setattr Fontcolor s ns = Inr (ns\<lparr>args_fontcolor := s\<rparr>)"
| "setattr Pix_fmt s ns = Inr (ns\<lparr>args_pix_fmt := s\<rparr>)"
| "setattr Soft s ns = Inr (ns\<lparr>args_soft := Some s\<rparr>)"
| "setattr Burn s ns = Inr (ns\<lparr>args_burn := Some s\<rparr>)"
| "setattr Lang s ns = Inr (ns\<lparr>args_lang := s\<rparr>)"
| "setattr Watermark s ns = Inr (ns\<lparr>args_watermark := s\<rparr>)"

text \<open>
  \<open>take_action\<close> for an option that stores one argument: the conversion, the check against
  the actions seen so far, the assignment.
\<close>

definition store :: "dest \<Rightarrow> string \<Rightarrow> pstate \<Rightarrow> argparse_exit + pstate" where
  "store d arg_string st =
     (case setattr d arg_string (namespace st) of
        Inl e \<Rightarrow> Inl (Exit_error e)
      | Inr ns \<Rightarrow>
          (case filter (\<lambda>c. c \<in> set (seen_non_default_actions st)) (action_conflicts d) of
             c # _ \<Rightarrow> Inl (Exit_error (Not_allowed_with (Store d) (Store c)))
           | [] \<Rightarrow>
               Inr (st\<lparr>namespace := ns,
                        seen_non_default_actions :=
                          (if action_conflicts d = [] then seen_non_default_actions st
                           else d # seen_non_default_actions st)\<rparr>)))"

text \<open>\<open>take_action\<close> for \<open>--resolutions\<close>: every value must be one of the choices.\<close>

definition store_resolutions :: "string list \<Rightarrow> pstate \<Rightarrow> argparse_exit + pstate" where
  "store_resolutions arg_strings st =
     (case filter (\<lambda>v. v \<notin> set choices) arg_strings of
        v # _ \<Rightarrow> Inl (Exit_error (Invalid_choice Store_resolutions v))
      | [] \<Rightarrow> Inr (st\<lparr>namespace := (namespace st)\<lparr>args_resolutions := arg_strings\<rparr>\<rparr>))"

text \<open>
  The tail of a short option with an explicit argument (\<open>-hfoo\<close>), as CPython 3.11.10 reads
  it: either every flag in it is \<open>-h\<close> or the scan stops at an unknown flag, and the help action
  runs (exit status 0); or the explicit argument is refused. Earlier releases of the 3.11
  series, 3.11.2 for one, refuse the explicit argument of \<open>-hfoo\<close> with a usage error (exit
  status 2) and no help, and report the tail after \<open>-hh\<close> with its \<open>=\<close>. Both readings end
  the program in \<open>parse_args\<close>, before anything is dispatched.
\<close>

fun short_flags :: "bool \<Rightarrow> string \<Rightarrow> argparse_exit" where
  "short_flags eq [] = Exit_error (Ignored_explicit_argument Help_action [])"
| "short_flags eq (c # cs) =
     (if eq \<or> c = CHR ''-'' then Exit_error (Ignored_explicit_argument Help_action (c # cs))
      else if c = CHR ''h'' then
        (case cs of
           [] \<Rightarrow> Exit_help
         | d # ds \<Rightarrow> if d = CHR ''='' then short_flags True ds else short_flags False cs)
      else Exit_help)"

text \<open>
  \<open>consume_optional\<close>: the option at the head of the strings still to parse, followed by
  \<open>rest\<close>. The result is the number of strings of \<open>rest\<close> taken as arguments and the new state.
\<close>

definition consume_optional ::
  "action option \<Rightarrow> string \<Rightarrow> string option \<Rightarrow> string option \<Rightarrow> tok list \<Rightarrow> pstate \<Rightarrow>
   argparse_exit + (nat \<times> pstate)" where
  "consume_optional action option_string sep explicit_arg rest st =
     (case action of
        None \<Rightarrow> Inr (0, st\<lparr>extras := extras st @ [option_string]\<rparr>)
      | Some Help_action \<Rightarrow>
          (case explicit_arg of
             None \<Rightarrow> Inl Exit_help
           | Some ex \<Rightarrow>
               if take 2 option_string \<noteq> ''--'' \<and> ex \<noteq> []
               then Inl (short_flags (sep = Some ''='') ex)
               else Inl (Exit_error (Ignored_explicit_argument Help_action ex)))
      | Some (Store d) \<Rightarrow>
          (case explicit_arg of
             Some ex \<Rightarrow> map_sum id (Pair 0) (store d ex st)
           | None \<Rightarrow>
               (case rest of
                  Arg a # _ \<Rightarrow> map_sum id (Pair 1) (store d a st)
                | _ \<Rightarrow> Inl (Exit_error (Expected_one_argument (Store d)))))
      | Some Store_resolutions \<Rightarrow>
          (case explicit_arg of
             Some ex \<Rightarrow> map_sum id (Pair 0) (store_resolutions [ex] st)
           | None \<Rightarrow>
               (let arg_strings = map tok_string (takeWhile (\<lambda>t. \<not> is_Opt t) rest)
                in if arg_strings = []
                   then Inl (Exit_error (Expected_at_least_one_argument Store_resolutions))
                   else map_sum id (Pair (length arg_strings)) (store_resolutions arg_strings st))))"

subsection \<open>The parse loop\<close>

text \<open>
  The loop of \<open>_parse_known_args\<close> runs while an option is still ahead. It consumes the
  positionals that match the arguments before the next option (or moves these arguments to
  \<open>extras\<close> when both positionals are set), then the option. It only ever sees strings before
  the separator \<open>--\<close>, since no string after it is an option.
\<close>

function parse_loop :: "tok list \<Rightarrow> pstate \<Rightarrow> argparse_exit + (tok list \<times> pstate)" where
  "parse_loop pre st =
     (if \<not> list_ex is_Opt pre then Inr (pre, st)
      else case pre of
        [] \<Rightarrow> Inr (pre, st)
      | Opt action option_string sep explicit_arg # rest \<Rightarrow>
          (case consume_optional action option_string sep explicit_arg rest st of
             Inl e \<Rightarrow> Inl e
           | Inr (n, st') \<Rightarrow> parse_loop (drop n rest) st')
      | Arg a # rest \<Rightarrow>
          (case ns_input st of
             None \<Rightarrow>
               (case rest of
                  Arg b # rest' \<Rightarrow> parse_loop rest' (st\<lparr>ns_input := Some a, ns_output := Some (Str b)\<rparr>)
                | _ \<Rightarrow> parse_loop rest (st\<lparr>ns_input := Some a\<rparr>))
           | Some _ \<Rightarrow>
               (case ns_output st of
                  None \<Rightarrow> parse_loop rest (st\<lparr>ns_output := Some (Str a)\<rparr>)
                | Some _ \<Rightarrow>
                    parse_loop (dropWhile (\<lambda>t. \<not> is_Opt t) rest)
                      (st\<lparr>extras := extras st @ a # map tok_string (takeWhile (\<lambda>t. \<not> is_Opt t) rest)\<rparr>))))"
  by pat_completeness auto
termination
  by (relation "measure (\<lambda>(pre, st). length pre)")
     (auto simp: less_Suc_eq_le intro: le_trans [OF length_dropWhile_le])

declare parse_loop.simps [simp del]

subsection \<open>The positionals after the last option\<close>

text \<open>
  What is left to parse after the loop: the arguments before the separator and, when there is
  one, the strings after it (\<open>Before\<close>); or, once a positional has matched the separator, only
  strings that followed it (\<open>After\<close>).
\<close>

datatype remaining = Before "string list" "string list option" | After "string list"

fun remaining_strings :: "remaining \<Rightarrow> string list" where
  "remaining_strings (Before as None) = as"
| "remaining_strings (Before as (Some post)) = as @ ''--'' # post"
| "remaining_strings (After post) = post"

text \<open>
  A positional matches one argument, with the separator next to it: \<open>(-*A-*)\<close>. The separator
  is removed from the strings matched; when the argument itself is a \<open>--\<close> after a separator
  matched earlier, it is this string that is removed and the value is the empty list.
\<close>

fun match_before :: "string list \<Rightarrow> string list option \<Rightarrow> (string \<times> remaining) option" where
  "match_before (a # as) post =
     Some (a, if as = [] then (case post of Some p \<Rightarrow> After p | None \<Rightarrow> Before [] None)
              else Before as post)"
| "match_before [] (Some (v # p)) = Some (v, After p)"
| "match_before [] (Some []) = None"
| "match_before [] None = None"

fun match_positional :: "remaining \<Rightarrow> (positional \<times> remaining) option" where
  "match_positional (Before as post) = map_option (\<lambda>(v, r). (Str v, r)) (match_before as post)"
| "match_positional (After []) = None"
| "match_positional (After (v # p)) = Some (if v = ''--'' then Empty_list else Str v, After p)"

definition consume_positionals :: "string list \<Rightarrow> string list option \<Rightarrow> pstate \<Rightarrow> pstate" where
  "consume_positionals as post st =
     (case ns_input st of
        None \<Rightarrow>
          (case match_before as post of
             None \<Rightarrow> st\<lparr>extras := extras st @ remaining_strings (Before as post)\<rparr>
           | Some (i, r) \<Rightarrow>
               (case match_positional r of
                  None \<Rightarrow> st\<lparr>ns_input := Some i, extras := extras st @ remaining_strings r\<rparr>
                | Some (out, r') \<Rightarrow>
                    st\<lparr>ns_input := Some i, ns_output := Some out,
                       extras := extras st @ remaining_strings r'\<rparr>))
      | Some _ \<Rightarrow>
          (case ns_output st of
             None \<Rightarrow>
               (case match_before as post of
                  None \<Rightarrow> st\<lparr>extras := extras st @ remaining_strings (Before as post)\<rparr>
                | Some (v, r) \<Rightarrow>
                    st\<lparr>ns_output := Some (Str v), extras := extras st @ remaining_strings r\<rparr>)
           | Some _ \<Rightarrow> st\<lparr>extras := extras st @ remaining_strings (Before as post)\<rparr>))"

subsection \<open>parse\_args\<close>

definition parse_args :: "string list \<Rightarrow> argparse_exit + args" where
  "parse_args arg_strings =
     (let pre = takeWhile (\<lambda>s. s \<noteq> ''--'') arg_strings;
          post = (case dropWhile (\<lambda>s. s \<noteq> ''--'') arg_strings of [] \<Rightarrow> None | _ # p \<Rightarrow> Some p)
      in case classify pre of
           Inl e \<Rightarrow> Inl (Exit_error e)
         | Inr toks \<Rightarrow>
             (case parse_loop toks
                     \<lparr>namespace = defaults, ns_input = None, ns_output = None,
                      seen_non_default_actions = [], extras = []\<rparr> of
                Inl e \<Rightarrow> Inl e
              | Inr (rest, st) \<Rightarrow>
                  (let st' = consume_positionals (map tok_string rest) post st
                   in case ns_input st' of
                        None \<Rightarrow> Inl (Exit_error (Arguments_required [''input'', ''output'']))
                      | Some i \<Rightarrow>
                          (case ns_output st' of
                             None \<Rightarrow> Inl (Exit_error (Arguments_required [''output'']))
                           | Some out \<Rightarrow>
                               if extras st' \<noteq> []
                               then Inl (Exit_error (Unrecognized_arguments (extras st')))
                               else Inr (optionals.extend (namespace st')
                                           (args.fields i out))))))"

subsection \<open>Invariants of the parser state\<close>

text \<open>
  What holds of the state throughout \<open>_parse_known_args\<close>: the two members of the mutually
  exclusive group are never both among the actions seen, an attribute of the group is set only
  when its action has been seen, and \<open>resolutions\<close> is a non-empty list of choices.
\<close>

definition parse_inv :: "pstate \<Rightarrow> bool" where
  "parse_inv st \<longleftrightarrow>
     \<not> (Soft \<in> set (seen_non_default_actions st) \<and> Burn \<in> set (seen_non_default_actions st))
     \<and> (args_soft (namespace st) = None \<or> Soft \<in> set (seen_non_default_actions st))
     \<and> (args_burn (namespace st) = None \<or> Burn \<in> set (seen_non_default_actions st))
     \<and> set (args_resolutions (namespace st)) \<subseteq> set choices
     \<and> args_resolutions (namespace st) \<noteq> []"

text \<open>
  An argument string has been handled when it is not a help option and, if it is an option of
  the mutually exclusive group, its action is among the actions seen.
\<close>

fun handled :: "dest list \<Rightarrow> tok \<Rightarrow> bool" where
  "handled seen (Opt (Some (Store d)) os sep ex) = (action_conflicts d = [] \<or> d \<in> set seen)"
| "handled seen (Opt (Some Help_action) os sep ex) = False"
| "handled seen t = True"

text \<open>
  What a completed run of the parse loop over \<open>pre\<close> has done: it has kept the invariant and
  handled every string of \<open>pre\<close>.
\<close>

definition loop_post :: "tok list \<Rightarrow> pstate \<Rightarrow> pstate \<Rightarrow> bool" where
  "loop_post pre st st' \<longleftrightarrow>
     set (seen_non_default_actions st) \<subseteq> set (seen_non_default_actions st')
     \<and> (\<not> parse_inv st \<or> parse_inv st')
     \<and> list_all (handled (seen_non_default_actions st')) pre"

subsection \<open>Options supplied on a command line\<close>

text \<open>
  A command line supplies an option when one of its strings before the separator \<open>--\<close> is
  classified as this option: the option string itself, an unambiguous abbreviation of it, or
  either followed by \<open>=\<close> and an argument.
\<close>

fun selects :: "action \<Rightarrow> argparse_error + tok \<Rightarrow> bool" where
  "selects a (Inr (Opt (Some a') os sep ex)) = (a' = a)"
| "selects a r = False"

definition supplies :: "action \<Rightarrow> string list \<Rightarrow> bool" where
  "supplies a argv =
     list_ex (\<lambda>s. selects a (parse_optional s)) (takeWhile (\<lambda>s. s \<noteq> ''--'') argv)"

subsection \<open>Names given to \<open>--resolutions\<close> on a command line\<close>

text \<open>A string is an argument when \<open>_parse_optional\<close> does not read it as an option.\<close>

definition is_argument :: "string \<Rightarrow> bool" where
  "is_argument s \<longleftrightarrow> parse_optional s = Inr (Arg s)"

text \<open>
  What a string hands to \<open>--resolutions\<close> when it is classified as this option: its explicit
  argument (\<open>--resolutions=4k\<close>), or else the arguments that follow it up to the next option
  (\<open>nargs='+'\<close>). Any other string hands it nothing.
\<close>

fun given_to_resolutions :: "argparse_error + tok \<Rightarrow> string list \<Rightarrow> string list" where
  "given_to_resolutions (Inr (Opt (Some Store_resolutions) os sep (Some ex))) following = [ex]"
| "given_to_resolutions (Inr (Opt (Some Store_resolutions) os sep None)) following = following"
| "given_to_resolutions r following = []"

fun resolution_arguments :: "string list \<Rightarrow> string list" where
  "resolution_arguments [] = []"
| "resolution_arguments (s # ss) =
     given_to_resolutions (parse_optional s) (takeWhile is_argument ss) @ resolution_arguments ss"

text \<open>
  The names a command line requests: all that its strings before the separator \<open>--\<close> hand to
  \<open>--resolutions\<close>, however often the option occurs.
\<close>

definition requested_resolutions :: "string list \<Rightarrow> string list" where
  "requested_resolutions argv = resolution_arguments (takeWhile (\<lambda>s. s \<noteq> ''--'') argv)"

text \<open>The same names, read off the classified strings that the parse loop works on.\<close>

fun resolution_values :: "tok list \<Rightarrow> string list" where
  "resolution_values [] = []"
| "resolution_values (t # ts) =
     given_to_resolutions (Inr t) (map tok_string (takeWhile (\<lambda>t. \<not> is_Opt t) ts)) @
     resolution_values ts"

section \<open>The main program\<close>

subsection \<open>The profile table and the selection\<close>

record opts =
  opts_res :: string
  opts_bitrate :: string
  opts_maxrate :: string
  opts_bufsize :: string
  opts_audio :: string
  opts_sample_rate :: int

text \<open>
  A Python dictionary keeps its keys in insertion order: it is modelled as an association
  list with distinct keys. \<open>dict_set\<close> is the assignment \<open>d[k] = v\<close>: a key already present keeps
  its place, a new key goes to the end.
\<close>

fun dict_set :: "'k \<Rightarrow> 'v \<Rightarrow> ('k \<times> 'v) list \<Rightarrow> ('k \<times> 'v) list" where
  "dict_set k v [] = [(k, v)]"
| "dict_set k v ((k', v') # d) = (if k' = k then (k, v) # d else (k', v') # dict_set k v d)"

definition resolutions :: "(string \<times> opts) list" where
  "resolutions =
     [(''1080p'', \<lparr>opts_res = ''1920x1080'', opts_bitrate = ''3000k'', opts_maxrate = ''3500k'',
                  opts_bufsize = ''6000k'', opts_audio = ''125k'', opts_sample_rate = 48000\<rparr>),
      (''720p'',  \<lparr>opts_res = ''1280x720'', opts_bitrate = ''2000k'', opts_maxrate = ''2500k'',
                  opts_bufsize = ''4000k'', opts_audio = ''110k'', opts_sample_rate = 48000\<rparr>),
      (''480p'',  \<lparr>opts_res = ''854x480'', opts_bitrate = ''1000k'', opts_maxrate = ''1500k'',
                  opts_bufsize = ''2000k'', opts_audio = ''90k'', opts_sample_rate = 44100\<rparr>),
      (''360p'',  \<lparr>opts_res = ''640x360'', opts_bitrate = ''700k'', opts_maxrate = ''1200k'',
                  opts_bufsize = ''1400k'', opts_audio = ''75k'', opts_sample_rate = 44100\<rparr>)]"

text \<open>
  \<open>selected = resolutions if "all" in args.resolutions else
  {r: resolutions[r] for r in args.resolutions if r in resolutions}\<close>:
  the comprehension runs through the requested names in the order they were given.
\<close>

definition selected :: "string list \<Rightarrow> (string \<times> opts) list" where
  "selected requested =
     (if ''all'' \<in> set requested then resolutions
      else foldl (\<lambda>d r. case map_of resolutions r of None \<Rightarrow> d | Some v \<Rightarrow> dict_set r v d)
                 [] requested)"

subsection \<open>The loop over the selected profiles\<close>

text \<open>The local variable \<open>out_file\<close> of the loop body, for the profile \<open>name\<close>.\<close>

definition out_file :: "args \<Rightarrow> string \<Rightarrow> string" where
  "out_file a name = format_positional (args_output a) @ ''_'' @ name @ ''.mp4''"

text \<open>The call of \<open>encode_video\<close> in the body of the loop, for one item of \<open>selected\<close>.\<close>

definition encode_profile ::
  "(nat \<Rightarrow> string list \<Rightarrow> int) \<Rightarrow> args \<Rightarrow> string \<Rightarrow> string \<times> opts \<Rightarrow>
   event list \<Rightarrow> unit outcome \<times> event list" where
  "encode_profile proc a font_path item w =
     (case item of
        (name, opts) \<Rightarrow>
          encode_video proc
            (args_input a) (out_file a name) font_path (args_watermark a)
            (args_x a) (args_y a) (args_fontsize a) (args_fontcolor a)
            (opts_bitrate opts) (opts_audio opts) (opts_maxrate opts) (opts_bufsize opts)
            (args_pix_fmt a) (opts_sample_rate opts) (opts_res opts)
            (args_soft a) (args_burn a) (args_lang a) w)"

text \<open>The argument list that this call builds and passes to \<open>subprocess.run\<close>.\<close>

definition profile_cmd :: "args \<Rightarrow> string \<Rightarrow> string \<times> opts \<Rightarrow> string list" where
  "profile_cmd a font_path item =
     (case item of
        (name, opts) \<Rightarrow>
          ffmpeg_cmd
            (args_input a) (out_file a name) font_path (args_watermark a)
            (args_x a) (args_y a) (args_fontsize a) (args_fontcolor a)
            (opts_bitrate opts) (opts_audio opts) (opts_maxrate opts) (opts_bufsize opts)
            (args_pix_fmt a) (opts_sample_rate opts) (opts_res opts)
            (args_soft a) (args_burn a) (args_lang a))"

text \<open>The \<open>for\<close> loop: \<open>SystemExit\<close> raised by a call ends it.\<close>

fun for_selected ::
  "(nat \<Rightarrow> string list \<Rightarrow> int) \<Rightarrow> args \<Rightarrow> string \<Rightarrow> (string \<times> opts) list \<Rightarrow>
   event list \<Rightarrow> unit outcome \<times> event list" where
  "for_selected proc a font_path [] w = (Returned (), w)"
| "for_selected proc a font_path (item # items) w =
     (case encode_profile proc a font_path item w of
        (SystemExit status, w') \<Rightarrow> (SystemExit status, w')
      | (Returned u, w') \<Rightarrow> for_selected proc a font_path items w')"

subsection \<open>The program\<close>

text \<open>
  A run of encode.py: \<open>script_dir\<close> is the directory of the script, \<open>proc\<close> the behaviour of the
  child processes, \<open>argv\<close> the command line after the program name. The result is the exit
  status of the program and the events of the run.
\<close>

definition main :: "string \<Rightarrow> (nat \<Rightarrow> string list \<Rightarrow> int) \<Rightarrow> string list \<Rightarrow> int \<times> event list" where
  "main script_dir proc argv =
     (let font_path = os_path_join script_dir ''NeometricAlt-HeavyItalic.ttf''
      in case parse_args argv of
           Inl Exit_help \<Rightarrow> (0, [Argparse_help])
         | Inl (Exit_error e) \<Rightarrow> (2, [Argparse_error e])
         | Inr a \<Rightarrow>
             (case for_selected proc a font_path (selected (args_resolutions a)) [] of
                (SystemExit status, w) \<Rightarrow> (status, w)
              | (Returned u, w) \<Rightarrow> (0, w @ [Print ''Encoding complete!''])))"

section \<open>Evaluation of integer printing\<close>

lemma str_nat_small: "n < 10 \<Longrightarrow> str_nat n = [digit_char n]"
  by (simp add: str_nat.simps)

lemma str_nat_large: "\<not> n < 10 \<Longrightarrow> str_nat n = str_nat (n div 10) @ [digit_char (n mod 10)]"
  by (subst str_nat.simps) simp

lemmas str_int_eval = str_int_def str_nat_small str_nat_large digit_char_def

section \<open>The filter chain and the command\<close>

text \<open>
  An empty path is no subtitle file: \<open>if soft_sub:\<close> and \<open>if burn_sub:\<close> are false for the
  empty string, as they are for \<open>None\<close>.
\<close>

lemma empty_path_is_no_subtitle:
  "ffmpeg_cmd input_file output_file font_path text x y fontsize fontcolor
     bitrate audio_bitrate maxrate bufsize pix_fmt sample_rate resolution (Some []) (Some []) lang =
   ffmpeg_cmd input_file output_file font_path text x y fontsize fontcolor
     bitrate audio_bitrate maxrate bufsize pix_fmt sample_rate resolution None None lang"
  by (simp add: ffmpeg_cmd_def filter_complex_def filters_def truthy_def)

text \<open>
  C7. The video filter chain is one string: its stages joined with a comma, in a fixed order.
  The scale stage is always the first stage and the drawtext stage always the last; a
  \<open>subtitles=\<close> stage is among the stages if and only if burn mode is selected, and it is then
  the second of three. Burn mode is selected when \<open>burn_sub\<close> is true for Python, that is, a
  non-empty path: \<open>encode_video\<close> tests \<open>if burn_sub:\<close>, so that an empty path counts as no
  subtitle file.
\<close>

theorem filter_chain_stages:
  "let fs = filters font_path text x y fontsize fontcolor resolution burn_sub;
       chain = filter_complex font_path text x y fontsize fontcolor resolution burn_sub;
       scale = ''scale='' @ resolution;
       drawtext = ''drawtext=fontfile='' @ quote @ font_path @ quote @ '':text='' @ quote @ text @ quote
          @ '':x='' @ str_int x @ '':y='' @ str_int y @ '':fontsize='' @ str_int fontsize
          @ '':fontcolor='' @ fontcolor
   in chain = str_join '','' fs
      \<and> hd fs = scale \<and> last fs = drawtext
      \<and> ((\<exists>s \<in> set fs. prefix ''subtitles='' s) \<longleftrightarrow> truthy burn_sub)
      \<and> (\<forall>b. burn_sub = Some b \<and> b \<noteq> [] \<longrightarrow>
             fs = [scale, ''subtitles='' @ quote @ b @ quote, drawtext]
             \<and> chain = scale @ '','' @ ''subtitles='' @ quote @ b @ quote @ '','' @ drawtext)
      \<and> (\<not> truthy burn_sub \<longrightarrow> fs = [scale, drawtext] \<and> chain = scale @ '','' @ drawtext)"
  by (cases burn_sub) (auto simp: filters_def filter_complex_def truthy_def Let_def)

theorem filter_chain_stages_witness:
  "truthy (Some ''s.srt'') \<and> \<not> truthy None \<and>
   filter_complex ''/opt/f.ttf'' ''HALASHOW.COM'' 20 40 30 ''white@0.5'' ''1280x720'' (Some ''s.srt'') =
     ''scale=1280x720,subtitles='' @ quote @ ''s.srt'' @ quote
       @ '',drawtext=fontfile='' @ quote @ ''/opt/f.ttf'' @ quote
       @ '':text='' @ quote @ ''HALASHOW.COM'' @ quote @ '':x=20:y=40:fontsize=30:fontcolor=white@0.5'' \<and>
   filter_complex ''/opt/f.ttf'' ''HALASHOW.COM'' 20 40 30 ''white@0.5'' ''1280x720'' None =
     ''scale=1280x720,drawtext=fontfile='' @ quote @ ''/opt/f.ttf'' @ quote
       @ '':text='' @ quote @ ''HALASHOW.COM'' @ quote @ '':x=20:y=40:fontsize=30:fontcolor=white@0.5''"
  using filter_chain_stages [of "''/opt/f.ttf''" "''HALASHOW.COM''" 20 40 30 "''white@0.5''"
          "''1280x720''" "Some ''s.srt''"]
        filter_chain_stages [of "''/opt/f.ttf''" "''HALASHOW.COM''" 20 40 30 "''white@0.5''"
          "''1280x720''" None]
  by (simp add: Let_def truthy_def str_int_eval)

text \<open>
  C10. When soft-subtitle mode is not selected (\<open>soft_sub\<close> is \<open>None\<close> or empty), the argument
  list built by \<open>encode_video\<close> does not depend on \<open>lang\<close>: two calls that differ only in the
  language build the same list and have the same effects.
\<close>

theorem lang_only_in_soft_mode:
  "\<not> truthy soft_sub \<Longrightarrow>
   ffmpeg_cmd input_file output_file font_path text x y fontsize fontcolor
     bitrate audio_bitrate maxrate bufsize pix_fmt sample_rate resolution soft_sub burn_sub lang1 =
   ffmpeg_cmd input_file output_file font_path text x y fontsize fontcolor
     bitrate audio_bitrate maxrate bufsize pix_fmt sample_rate resolution soft_sub burn_sub lang2
   \<and> encode_video proc input_file output_file font_path text x y fontsize fontcolor
     bitrate audio_bitrate maxrate bufsize pix_fmt sample_rate resolution soft_sub burn_sub lang1 w =
   encode_video proc input_file output_file font_path text x y fontsize fontcolor
     bitrate audio_bitrate maxrate bufsize pix_fmt sample_rate resolution soft_sub burn_sub lang2 w"
  by (simp add: ffmpeg_cmd_def encode_video_def)

theorem lang_only_in_soft_mode_witness:
  "\<not> truthy (Some []) \<and>
   ffmpeg_cmd ''in.mkv'' ''out_720p.mp4'' ''/opt/f.ttf'' ''HALASHOW.COM'' 20 40 30 ''white@0.5''
     ''2000k'' ''110k'' ''2500k'' ''4000k'' ''yuv420p'' 48000 ''1280x720'' (Some []) (Some ''s.srt'') ''ar'' =
   ffmpeg_cmd ''in.mkv'' ''out_720p.mp4'' ''/opt/f.ttf'' ''HALASHOW.COM'' 20 40 30 ''white@0.5''
     ''2000k'' ''110k'' ''2500k'' ''4000k'' ''yuv420p'' 48000 ''1280x720'' (Some []) (Some ''s.srt'') ''eng''"
  using lang_only_in_soft_mode [of "Some []" "''in.mkv''" "''out_720p.mp4''" "''/opt/f.ttf''" "''HALASHOW.COM''"
     20 40 30 "''white@0.5''" "''2000k''" "''110k''" "''2500k''" "''4000k''" "''yuv420p''" 48000 "''1280x720''"
     "Some ''s.srt''" "''ar''" "''eng''"]
  by (simp add: truthy_def)

text \<open>
  C3. In soft-subtitle mode (\<open>soft_sub\<close> a non-empty path) the command is the command built
  without any subtitle file, with three additions: a second input \<open>-i soft_sub\<close> right after the
  first, a stream map \<open>-map 1:0\<close> right after the maps of video and audio, and the parameters
  \<open>-c:s mov_text -metadata:s:s:0 language=lang\<close> after the audio parameters. In burn mode
  (\<open>burn_sub\<close> a non-empty path and no soft subtitle, as the parser guarantees) the command is the
  command built without any subtitle file except for the value of \<open>-vf\<close>: the filter chain, which
  has the \<open>subtitles=\<close> stage between scale and drawtext. No input and no map is added.
\<close>

theorem soft_adds_input_and_map:
  "let cmd = ffmpeg_cmd input_file output_file font_path text x y fontsize fontcolor
               bitrate audio_bitrate maxrate bufsize pix_fmt sample_rate resolution soft_sub burn_sub lang;
       plain = ffmpeg_cmd input_file output_file font_path text x y fontsize fontcolor
               bitrate audio_bitrate maxrate bufsize pix_fmt sample_rate resolution None None lang;
       chain = filter_complex font_path text x y fontsize fontcolor resolution burn_sub;
       drawtext = ''drawtext=fontfile='' @ quote @ font_path @ quote @ '':text='' @ quote @ text @ quote
          @ '':x='' @ str_int x @ '':y='' @ str_int y @ '':fontsize='' @ str_int fontsize
          @ '':fontcolor='' @ fontcolor
   in length plain = 41
      \<and> take 5 plain = [''ffmpeg'', ''-threads'', ''0'', ''-i'', input_file]
      \<and> take 6 (drop 5 plain) = [''-vf'', ''scale='' @ resolution @ '','' @ drawtext, ''-map'', ''0:v'', ''-map'', ''0:a'']
      \<and> (\<forall>s. soft_sub = Some s \<and> s \<noteq> [] \<longrightarrow>
             cmd = take 5 plain @ [''-i'', s]
                   @ [''-vf'', chain] @ take 4 (drop 7 plain) @ [''-map'', ''1:0'']
                   @ take 22 (drop 11 plain)
                   @ [''-c:s'', ''mov_text'', ''-metadata:s:s:0'', ''language='' @ lang]
                   @ drop 33 plain)
      \<and> (\<forall>b. burn_sub = Some b \<and> b \<noteq> [] \<and> \<not> truthy soft_sub \<longrightarrow>
             cmd = plain[6 := chain]
             \<and> chain = ''scale='' @ resolution @ '','' @ ''subtitles='' @ quote @ b @ quote @ '','' @ drawtext)"
  by (cases soft_sub; cases burn_sub) (auto simp: ffmpeg_cmd_def truthy_def Let_def filter_complex_def filters_def)

theorem soft_adds_input_and_map_witness:
  "ffmpeg_cmd ''in.mkv'' ''out_720p.mp4'' ''/opt/f.ttf'' ''W'' 20 40 30 ''white''
     ''2000k'' ''110k'' ''2500k'' ''4000k'' ''yuv420p'' 48000 ''1280x720'' (Some ''s.srt'') None ''ar'' =
   [''ffmpeg'', ''-threads'', ''0'', ''-i'', ''in.mkv'', ''-i'', ''s.srt'',
    ''-vf'', ''scale=1280x720,drawtext=fontfile='' @ quote @ ''/opt/f.ttf'' @ quote @ '':text='' @ quote @ ''W'' @ quote
             @ '':x=20:y=40:fontsize=30:fontcolor=white'',
    ''-map'', ''0:v'', ''-map'', ''0:a'', ''-map'', ''1:0'',
    ''-c:v'', ''libx264'', ''-profile:v'', ''high'', ''-pix_fmt'', ''yuv420p'', ''-b:v'', ''2000k'',
    ''-maxrate'', ''2500k'', ''-bufsize'', ''4000k'', ''-preset'', ''medium'',
    ''-c:a'', ''aac'', ''-b:a'', ''110k'', ''-ar'', ''48000'', ''-ac'', ''2'',
    ''-c:s'', ''mov_text'', ''-metadata:s:s:0'', ''language=ar'',
    ''-map_metadata'', ''-1'', ''-map_chapters'', ''-1'', ''-movflags'', ''+faststart'', ''-dn'',
    ''out_720p.mp4'']
   \<and>
   ffmpeg_cmd ''in.mkv'' ''out_720p.mp4'' ''/opt/f.ttf'' ''W'' 20 40 30 ''white''
     ''2000k'' ''110k'' ''2500k'' ''4000k'' ''yuv420p'' 48000 ''1280x720'' None (Some ''s.srt'') ''ar'' =
   [''ffmpeg'', ''-threads'', ''0'', ''-i'', ''in.mkv'',
    ''-vf'', ''scale=1280x720,subtitles='' @ quote @ ''s.srt'' @ quote @ '',drawtext=fontfile='' @ quote @ ''/opt/f.ttf'' @ quote
             @ '':text='' @ quote @ ''W'' @ quote @ '':x=20:y=40:fontsize=30:fontcolor=white'',
    ''-map'', ''0:v'', ''-map'', ''0:a'',
    ''-c:v'', ''libx264'', ''-profile:v'', ''high'', ''-pix_fmt'', ''yuv420p'', ''-b:v'', ''2000k'',
    ''-maxrate'', ''2500k'', ''-bufsize'', ''4000k'', ''-preset'', ''medium'',
    ''-c:a'', ''aac'', ''-b:a'', ''110k'', ''-ar'', ''48000'', ''-ac'', ''2'',
    ''-map_metadata'', ''-1'', ''-map_chapters'', ''-1'', ''-movflags'', ''+faststart'', ''-dn'',
    ''out_720p.mp4'']"
  using soft_adds_input_and_map [of "''in.mkv''" "''out_720p.mp4''" "''/opt/f.ttf''" "''W''" 20 40 30 "''white''"
     "''2000k''" "''110k''" "''2500k''" "''4000k''" "''yuv420p''" 48000 "''1280x720''" "Some ''s.srt''" None "''ar''"]
     soft_adds_input_and_map [of "''in.mkv''" "''out_720p.mp4''" "''/opt/f.ttf''" "''W''" 20 40 30 "''white''"
     "''2000k''" "''110k''" "''2500k''" "''4000k''" "''yuv420p''" 48000 "''1280x720''" None "Some ''s.srt''" "''ar''"]
  by (simp add: Let_def truthy_def ffmpeg_cmd_def filter_complex_def filters_def str_int_eval)

section \<open>The selection of profiles\<close>

text \<open>
  C6. When \<open>all\<close> is among the requested resolutions, the selection is the whole built-in
  table: the four profiles 1080p, 720p, 480p, 360p, in this order.
\<close>

theorem select_all:
  "''all'' \<in> set requested \<Longrightarrow>
   selected requested = resolutions \<and>
   map fst (selected requested) = [''1080p'', ''720p'', ''480p'', ''360p'']"
  by (simp add: selected_def resolutions_def)

theorem select_all_witness:
  "''all'' \<in> set [''720p'', ''all''] \<and> map fst (selected [''720p'', ''all'']) = [''1080p'', ''720p'', ''480p'', ''360p'']"
  using select_all [of "[''720p'', ''all'']"] by (simp add: resolutions_def)

lemma remdups_snoc: "remdups (xs @ [x]) = filter (\<lambda>y. y \<noteq> x) (remdups xs) @ [x]"
  by (induction xs) auto

lemma first_occurrences_Cons:
  "rev (remdups (rev (r # rs))) = r # filter (\<lambda>y. y \<noteq> r) (rev (remdups (rev rs)))"
  by (simp add: remdups_snoc rev_filter)

lemma keys_dict_set:
  "map fst (dict_set k v d) = (if k \<in> fst ` set d then map fst d else map fst d @ [k])"
proof (induction d)
  case Nil
  then show ?case by simp
next
  case (Cons e d)
  then show ?case by (cases e) (auto simp: image_iff)
qed

lemma set_dict_set: "set (dict_set k v d) \<subseteq> insert (k, v) (set d)"
proof (induction d)
  case Nil
  then show ?case by simp
next
  case (Cons e d)
  then show ?case by (cases e) auto
qed

lemma keys_comprehension:
  "map fst (foldl (\<lambda>d r. case map_of t r of None \<Rightarrow> d | Some v \<Rightarrow> dict_set r v d) d rs) =
   map fst d @ filter (\<lambda>r. r \<notin> fst ` set d \<and> map_of t r \<noteq> None) (rev (remdups (rev rs)))"
proof (induction rs arbitrary: d)
  case Nil
  then show ?case by simp
next
  case (Cons r rs)
  let ?fo = "rev (remdups (rev rs))"
  show ?case
  proof (cases "map_of t r")
    case None
    have "filter (\<lambda>x. x \<notin> fst ` set d \<and> map_of t x \<noteq> None) (filter (\<lambda>y. y \<noteq> r) ?fo) =
          filter (\<lambda>x. x \<notin> fst ` set d \<and> map_of t x \<noteq> None) ?fo"
      using None by (auto intro!: filter_cong)
    with None Cons.IH [of d] show ?thesis
      by (simp only: first_occurrences_Cons foldl_Cons option.case filter.simps) simp
  next
    case (Some v)
    show ?thesis
    proof (cases "r \<in> fst ` set d")
      case True
      have k: "fst ` set (dict_set r v d) = fst ` set d"
        using arg_cong [OF keys_dict_set [of r v d], of set] True by simp
      have "filter (\<lambda>x. x \<notin> fst ` set d \<and> map_of t x \<noteq> None) (filter (\<lambda>y. y \<noteq> r) ?fo) =
            filter (\<lambda>x. x \<notin> fst ` set d \<and> map_of t x \<noteq> None) ?fo"
        using True by (auto intro!: filter_cong)
      with Some True Cons.IH [of "dict_set r v d"] k show ?thesis
        by (simp only: first_occurrences_Cons foldl_Cons option.case filter.simps)
           (simp add: keys_dict_set)
    next
      case False
      have k: "fst ` set (dict_set r v d) = insert r (fst ` set d)"
        using arg_cong [OF keys_dict_set [of r v d], of set] False by simp
      have "filter (\<lambda>x. x \<notin> insert r (fst ` set d) \<and> map_of t x \<noteq> None) ?fo =
            filter (\<lambda>x. x \<notin> fst ` set d \<and> map_of t x \<noteq> None) (filter (\<lambda>y. y \<noteq> r) ?fo)"
        by (auto intro!: filter_cong)
      with Some False Cons.IH [of "dict_set r v d"] k show ?thesis
        by (simp only: first_occurrences_Cons foldl_Cons option.case filter.simps)
           (simp add: keys_dict_set)
    qed
  qed
qed

lemma entries_comprehension:
  "set d \<subseteq> set t \<Longrightarrow>
   set (foldl (\<lambda>d r. case map_of t r of None \<Rightarrow> d | Some v \<Rightarrow> dict_set r v d) d rs) \<subseteq> set t"
proof (induction rs arbitrary: d)
  case Nil
  then show ?case by simp
next
  case (Cons r rs)
  show ?case
  proof (cases "map_of t r")
    case None
    with Cons show ?thesis by simp
  next
    case (Some v)
    then have "(r, v) \<in> set t" by (rule map_of_SomeD)
    with Cons.prems set_dict_set [of r v d] have "set (dict_set r v d) \<subseteq> set t" by auto
    with Some Cons.IH [of "dict_set r v d"] show ?thesis by simp
  qed
qed


lemma selected_keys:
  "''all'' \<notin> set requested \<Longrightarrow>
   map fst (selected requested) =
   filter (\<lambda>r. map_of resolutions r \<noteq> None) (rev (remdups (rev requested)))"
  using keys_comprehension [of resolutions "[]" requested] by (simp add: selected_def)

lemma selected_entries: "set (selected requested) \<subseteq> set resolutions"
  using entries_comprehension [of "[]" resolutions requested] by (simp add: selected_def)

lemma distinct_resolutions: "distinct (map fst resolutions)"
  by (simp add: resolutions_def)

lemma keys_resolutions: "map fst resolutions = [''1080p'', ''720p'', ''480p'', ''360p'']"
  by (simp add: resolutions_def)

lemma selected_table_order:
  assumes "subseq requested (map fst resolutions)"
  shows "selected requested = filter (\<lambda>e. fst e \<in> set requested) resolutions"
proof -
  from assms have "requested \<in> set (subseqs [''1080p'', ''720p'', ''480p'', ''360p''])"
    unfolding keys_resolutions by (simp only: in_set_subseqs)
  then show ?thesis
    by (simp del: in_set_subseqs add: Let_def) (elim disjE; simp add: selected_def resolutions_def)
qed

text \<open>
  C4. For requested names among 1080p, 720p, 480p, 360p, the selection holds exactly the
  entries of the built-in table whose names were requested, each once. Their order is the
  order in which the names were first requested, not the order of the table: the
  comprehension runs through \<open>args.resolutions\<close>. The two orders agree when the names are
  requested in the order of the table.
\<close>

theorem select_by_request_order:
  assumes "set requested \<subseteq> {''1080p'', ''720p'', ''480p'', ''360p''}"
  shows "map fst (selected requested) = rev (remdups (rev requested))
     \<and> set (selected requested) = {e \<in> set resolutions. fst e \<in> set requested}
     \<and> (subseq requested (map fst resolutions) \<longrightarrow>
          selected requested = filter (\<lambda>e. fst e \<in> set requested) resolutions)"
proof -
  from assms have no_all: "''all'' \<notin> set requested" by auto
  from assms have known: "\<forall>r \<in> set requested. map_of resolutions r \<noteq> None"
    by (auto simp: resolutions_def)
  then have "filter (\<lambda>r. map_of resolutions r \<noteq> None) (rev (remdups (rev requested))) =
             rev (remdups (rev requested))"
    by (auto intro!: filter_True)
  with selected_keys [OF no_all]
  have keys: "map fst (selected requested) = rev (remdups (rev requested))" by simp
  have key_set: "fst ` set (selected requested) = set requested"
    using arg_cong [OF keys, of set] by simp
  have "set (selected requested) = {e \<in> set resolutions. fst e \<in> set requested}"
  proof (intro set_eqI iffI)
    fix e assume "e \<in> set (selected requested)"
    with selected_entries key_set show "e \<in> {e \<in> set resolutions. fst e \<in> set requested}"
      by auto
  next
    fix e assume "e \<in> {e \<in> set resolutions. fst e \<in> set requested}"
    then have e: "e \<in> set resolutions" "fst e \<in> set requested" by auto
    with key_set obtain e' where e': "e' \<in> set (selected requested)" "fst e' = fst e"
      by (metis imageE)
    with selected_entries have "e' \<in> set resolutions" by auto
    with e e' distinct_resolutions have "e' = e"
      by (metis eq_key_imp_eq_value prod.collapse)
    with e' show "e \<in> set (selected requested)" by simp
  qed
  with keys selected_table_order show ?thesis by blast
qed

theorem select_by_request_order_witness:
  "set [''360p'', ''1080p'', ''360p''] \<subseteq> {''1080p'', ''720p'', ''480p'', ''360p''} \<and>
   map fst (selected [''360p'', ''1080p'', ''360p'']) = [''360p'', ''1080p''] \<and>
   subseq [''720p'', ''360p''] (map fst resolutions) \<and>
   map fst (selected [''720p'', ''360p'']) = [''720p'', ''360p'']"
  using select_by_request_order [of "[''360p'', ''1080p'', ''360p'']"]
        select_by_request_order [of "[''720p'', ''360p'']"]
  by (simp add: resolutions_def)

text \<open>
  Requested as \<open>360p 1080p\<close>, the profiles are selected in this order; the table has 1080p
  before 360p.
\<close>

theorem select_table_order_counterexample:
  "map fst (selected [''360p'', ''1080p'']) = [''360p'', ''1080p''] \<and>
   map fst (filter (\<lambda>e. fst e \<in> set [''360p'', ''1080p'']) resolutions) = [''1080p'', ''360p'']"
  by (simp add: selected_def resolutions_def)

section \<open>The run over the selected profiles\<close>

lemma spawned_append: "spawned (w @ w') = spawned w @ spawned w'"
  by (induction w rule: spawned.induct) simp_all

lemma returncodes_append: "returncodes (w @ w') = returncodes w @ returncodes w'"
  by (induction w rule: returncodes.induct) simp_all

lemma encode_profile_unfold:
  "encode_profile proc a font_path item w =
     (let cmd = profile_cmd a font_path item;
          rc = proc (length (spawned w)) cmd;
          w3 = w @ [Print (''Processing: '' @ args_input a @ '' -> '' @ out_file a (fst item)),
                    Print (''Running FFmpeg:'' @ [CHR 0x0A] @ str_join '' '' cmd),
                    Subprocess_run cmd rc]
      in if rc \<noteq> 0 then (SystemExit 1, w3 @ [Print_stderr ''Error: Encoding failed!''])
         else (Returned (), w3))"
  by (cases item) (simp add: encode_profile_def profile_cmd_def encode_video_def Let_def spawned_append)

lemma encode_profile_ok:
  assumes "proc (length (spawned w)) (profile_cmd a font_path item) = 0"
  shows "\<exists>w'. encode_profile proc a font_path item w = (Returned (), w')
            \<and> spawned w' = spawned w @ [profile_cmd a font_path item]
            \<and> returncodes w' = returncodes w @ [0]
            \<and> (Print_stderr ''Error: Encoding failed!'' \<in> set w' \<longrightarrow>
                 Print_stderr ''Error: Encoding failed!'' \<in> set w)"
  using assms by (simp add: encode_profile_unfold Let_def spawned_append returncodes_append)

lemma encode_profile_failed:
  assumes "proc (length (spawned w)) (profile_cmd a font_path item) \<noteq> 0"
  shows "\<exists>pre. encode_profile proc a font_path item w =
            (SystemExit 1,
             pre @ [Subprocess_run (profile_cmd a font_path item)
                      (proc (length (spawned w)) (profile_cmd a font_path item)),
                    Print_stderr ''Error: Encoding failed!''])
            \<and> spawned pre = spawned w \<and> returncodes pre = returncodes w"
  using assms
  by (simp add: encode_profile_unfold Let_def spawned_append returncodes_append)

lemma for_selected_all_ok:
  assumes "\<forall>i < length items. proc (length (spawned w) + i) (profile_cmd a font_path (items ! i)) = 0"
  shows "\<exists>w'. for_selected proc a font_path items w = (Returned (), w')
            \<and> spawned w' = spawned w @ map (profile_cmd a font_path) items
            \<and> returncodes w' = returncodes w @ replicate (length items) 0
            \<and> (Print_stderr ''Error: Encoding failed!'' \<in> set w' \<longrightarrow>
                 Print_stderr ''Error: Encoding failed!'' \<in> set w)"
  using assms
proof (induction items arbitrary: w)
  case Nil
  then show ?case by simp
next
  case (Cons item items)
  from Cons.prems have "proc (length (spawned w)) (profile_cmd a font_path item) = 0"
    by force
  from encode_profile_ok [where proc=proc and w=w and a=a and font_path=font_path and item=item, OF this] obtain w1 where
    w1: "encode_profile proc a font_path item w = (Returned (), w1)"
        "spawned w1 = spawned w @ [profile_cmd a font_path item]"
        "returncodes w1 = returncodes w @ [0]"
        "Print_stderr ''Error: Encoding failed!'' \<in> set w1 \<longrightarrow>
         Print_stderr ''Error: Encoding failed!'' \<in> set w"
    by blast
  have "\<forall>i < length items. proc (length (spawned w1) + i) (profile_cmd a font_path (items ! i)) = 0"
  proof (intro allI impI)
    fix i assume "i < length items"
    with Cons.prems have "proc (length (spawned w) + Suc i) (profile_cmd a font_path ((item # items) ! Suc i)) = 0"
      by (metis Suc_less_eq length_Cons)
    with w1 show "proc (length (spawned w1) + i) (profile_cmd a font_path (items ! i)) = 0"
      by simp
  qed
  from Cons.IH [OF this] obtain w' where
    "for_selected proc a font_path items w1 = (Returned (), w')"
    "spawned w' = spawned w1 @ map (profile_cmd a font_path) items"
    "returncodes w' = returncodes w1 @ replicate (length items) 0"
    "Print_stderr ''Error: Encoding failed!'' \<in> set w' \<longrightarrow>
     Print_stderr ''Error: Encoding failed!'' \<in> set w1"
    by blast
  with w1 show ?case by (simp add: replicate_append_same)
qed

lemma for_selected_first_failure:
  assumes "i < length items"
      and "\<forall>j < i. proc (length (spawned w) + j) (profile_cmd a font_path (items ! j)) = 0"
      and "proc (length (spawned w) + i) (profile_cmd a font_path (items ! i)) \<noteq> 0"
  shows "\<exists>pre. for_selected proc a font_path items w =
            (SystemExit 1,
             pre @ [Subprocess_run (profile_cmd a font_path (items ! i))
                      (proc (length (spawned w) + i) (profile_cmd a font_path (items ! i))),
                    Print_stderr ''Error: Encoding failed!''])
            \<and> spawned pre = spawned w @ map (profile_cmd a font_path) (take i items)
            \<and> returncodes pre = returncodes w @ replicate i 0"
  using assms
proof (induction items arbitrary: w i)
  case Nil
  then show ?case by simp
next
  case (Cons item items)
  show ?case
  proof (cases i)
    case 0
    with Cons.prems have "proc (length (spawned w)) (profile_cmd a font_path item) \<noteq> 0" by simp
    from encode_profile_failed [where proc=proc and w=w and a=a and font_path=font_path and item=item, OF this] 0 show ?thesis by auto
  next
    case (Suc k)
    with Cons.prems have "proc (length (spawned w)) (profile_cmd a font_path item) = 0" by force
    from encode_profile_ok [where proc=proc and w=w and a=a and font_path=font_path and item=item, OF this] obtain w1 where
      w1: "encode_profile proc a font_path item w = (Returned (), w1)"
          "spawned w1 = spawned w @ [profile_cmd a font_path item]"
          "returncodes w1 = returncodes w @ [0]"
      by blast
    have k: "k < length items" using Cons.prems Suc by simp
    have ok: "\<forall>j < k. proc (length (spawned w1) + j) (profile_cmd a font_path (items ! j)) = 0"
    proof (intro allI impI)
      fix j assume "j < k"
      then have "Suc j < i" using Suc by simp
      with Cons.prems(2) have "proc (length (spawned w) + Suc j) (profile_cmd a font_path ((item # items) ! Suc j)) = 0"
        by blast
      with w1 show "proc (length (spawned w1) + j) (profile_cmd a font_path (items ! j)) = 0" by simp
    qed
    have bad: "proc (length (spawned w1) + k) (profile_cmd a font_path (items ! k)) \<noteq> 0"
      using Cons.prems(3) Suc w1 by simp
    from Cons.IH [OF k ok bad] obtain pre where
      "for_selected proc a font_path items w1 =
            (SystemExit 1,
             pre @ [Subprocess_run (profile_cmd a font_path (items ! k))
                      (proc (length (spawned w1) + k) (profile_cmd a font_path (items ! k))),
                    Print_stderr ''Error: Encoding failed!''])"
      "spawned pre = spawned w1 @ map (profile_cmd a font_path) (take k items)"
      "returncodes pre = returncodes w1 @ replicate k 0"
      by blast
    with w1 Suc show ?thesis by (simp add: replicate_append_same)
  qed
qed

lemma for_selected_spawned:
  "\<exists>k \<le> length items.
     spawned (snd (for_selected proc a font_path items w)) =
     spawned w @ map (profile_cmd a font_path) (take k items)"
proof (induction items arbitrary: w)
  case Nil
  then show ?case by simp
next
  case (Cons item items)
  show ?case
  proof (cases "proc (length (spawned w)) (profile_cmd a font_path item) = 0")
    case True
    from encode_profile_ok [where proc=proc and w=w and a=a and font_path=font_path and item=item, OF this] obtain w1 where
      w1: "encode_profile proc a font_path item w = (Returned (), w1)"
          "spawned w1 = spawned w @ [profile_cmd a font_path item]"
      by blast
    from Cons.IH [of w1] obtain k where
      "k \<le> length items"
      "spawned (snd (for_selected proc a font_path items w1)) =
       spawned w1 @ map (profile_cmd a font_path) (take k items)"
      by blast
    with w1 show ?thesis
      by (intro exI [of _ "Suc k"]) simp
  next
    case False
    from encode_profile_failed [where proc=proc and w=w and a=a and font_path=font_path and item=item, OF this] show ?thesis
      by (intro exI [of _ "Suc 0"]) (auto simp: spawned_append)
  qed
qed



lemma distinct_dict_set: "distinct (map fst d) \<Longrightarrow> distinct (map fst (dict_set k v d))"
  by (simp add: keys_dict_set)

lemma distinct_comprehension:
  "distinct (map fst d) \<Longrightarrow>
   distinct (map fst (foldl (\<lambda>d r. case map_of t r of None \<Rightarrow> d | Some v \<Rightarrow> dict_set r v d) d rs))"
  by (induction rs arbitrary: d) (auto simp: distinct_dict_set split: option.splits)

lemma distinct_selected: "distinct (map fst (selected requested))"
  using distinct_comprehension [of "[]" resolutions requested]
  by (simp add: selected_def distinct_resolutions)

lemma for_selected_cases:
  "(\<exists>w'. for_selected proc a font_path items w = (Returned (), w')
       \<and> spawned w' = spawned w @ map (profile_cmd a font_path) items
       \<and> returncodes w' = returncodes w @ replicate (length items) 0
       \<and> (Print_stderr ''Error: Encoding failed!'' \<in> set w' \<longrightarrow>
            Print_stderr ''Error: Encoding failed!'' \<in> set w))
   \<or> (\<exists>i pre rc. i < length items \<and> rc \<noteq> 0
       \<and> for_selected proc a font_path items w =
            (SystemExit 1,
             pre @ [Subprocess_run (profile_cmd a font_path (items ! i)) rc,
                    Print_stderr ''Error: Encoding failed!''])
       \<and> spawned pre = spawned w @ map (profile_cmd a font_path) (take i items)
       \<and> returncodes pre = returncodes w @ replicate i 0)"
proof (cases "\<forall>i < length items.
                proc (length (spawned w) + i) (profile_cmd a font_path (items ! i)) = 0")
  case True
  then show ?thesis
    using for_selected_all_ok [of items proc w a font_path] by blast
next
  case False
  define P where "P i \<longleftrightarrow> i < length items \<and>
      proc (length (spawned w) + i) (profile_cmd a font_path (items ! i)) \<noteq> 0" for i
  from False have "\<exists>i. P i" by (auto simp: P_def)
  then obtain i where i: "P i" "\<forall>j < i. \<not> P j"
    using exists_least_iff [of P] by blast
  then have "i < length items"
    and "proc (length (spawned w) + i) (profile_cmd a font_path (items ! i)) \<noteq> 0"
    and "\<forall>j < i. proc (length (spawned w) + j) (profile_cmd a font_path (items ! j)) = 0"
    by (auto simp: P_def)
  then show ?thesis
    using for_selected_first_failure [of i items proc w a font_path] by blast
qed

lemma main_parsed:
  "parse_args argv = Inr a \<Longrightarrow>
   main script_dir proc argv =
     (case for_selected proc a (os_path_join script_dir ''NeometricAlt-HeavyItalic.ttf'')
             (selected (args_resolutions a)) [] of
        (SystemExit status, w) \<Rightarrow> (status, w)
      | (Returned u, w) \<Rightarrow> (0, w @ [Print ''Encoding complete!'']))"
  by (simp add: main_def)

lemma main_cases:
  assumes "parse_args argv = Inr a"
  shows
  "(fst (main script_dir proc argv) = 0
     \<and> spawned (snd (main script_dir proc argv)) =
         map (profile_cmd a (os_path_join script_dir ''NeometricAlt-HeavyItalic.ttf''))
             (selected (args_resolutions a))
     \<and> returncodes (snd (main script_dir proc argv)) =
         replicate (length (selected (args_resolutions a))) 0
     \<and> last (snd (main script_dir proc argv)) = Print ''Encoding complete!''
     \<and> Print_stderr ''Error: Encoding failed!'' \<notin> set (snd (main script_dir proc argv)))
   \<or> (\<exists>i pre rc. i < length (selected (args_resolutions a)) \<and> rc \<noteq> 0
     \<and> main script_dir proc argv =
         (1, pre @ [Subprocess_run
                      (profile_cmd a (os_path_join script_dir ''NeometricAlt-HeavyItalic.ttf'')
                         (selected (args_resolutions a) ! i)) rc,
                    Print_stderr ''Error: Encoding failed!''])
     \<and> spawned pre =
         map (profile_cmd a (os_path_join script_dir ''NeometricAlt-HeavyItalic.ttf''))
             (take i (selected (args_resolutions a)))
     \<and> returncodes pre = replicate i 0)"
  using for_selected_cases [of proc a "os_path_join script_dir ''NeometricAlt-HeavyItalic.ttf''"
          "selected (args_resolutions a)" "[]"]
  by (auto simp: main_parsed [OF assms] spawned_append returncodes_append)

text \<open>
  A concrete run: \<open>encode.py in.mkv out --resolutions 720p 480p 360p\<close>, once with every child
  process returning 0 and once with the first one returning 1.
\<close>

lemma parse_example:
  "parse_args [''in.mkv'', ''out'', ''--resolutions'', ''720p'', ''480p'', ''360p''] =
   Inr \<lparr>args_x = 20, args_y = 40, args_fontsize = 30, args_fontcolor = ''white@0.5'',
        args_pix_fmt = ''yuv420p'', args_soft = None, args_burn = None, args_lang = ''ar'',
        args_watermark = ''HALASHOW.COM'', args_resolutions = [''720p'', ''480p'', ''360p''],
        args_input = ''in.mkv'', args_output = Str ''out''\<rparr>"
  by code_simp

lemma run_example_codes:
  "returncodes (snd (main ''/opt'' (\<lambda>n cmd. 0) [''in.mkv'', ''out'', ''--resolutions'', ''720p'', ''480p'', ''360p''])) = [0, 0, 0]"
  by (simp add: main_def parse_example selected_def resolutions_def encode_profile_def encode_video_def Let_def)


lemma failing_example_codes:
  "returncodes (snd (main ''/opt'' (\<lambda>n cmd. if n = 0 then 1 else 0) [''in.mkv'', ''out'', ''--resolutions'', ''720p'', ''480p'', ''360p''])) = [1]"
  by (simp add: main_def parse_example selected_def resolutions_def encode_profile_def encode_video_def Let_def)

lemma failing_example_files:
  "map last (spawned (snd (main ''/opt'' (\<lambda>n cmd. if n = 0 then 1 else 0) [''in.mkv'', ''out'', ''--resolutions'', ''720p'', ''480p'', ''360p'']))) =
   [''out_720p.mp4'']"
  by (simp add: main_def parse_example selected_def resolutions_def encode_profile_def encode_video_def Let_def ffmpeg_cmd_def out_file_def)

text \<open>
  C9. When the command line is accepted and every child process of the run returned status 0,
  one process was started for each selected profile, in the order of the selection, each
  with the argument list built for that profile; the selected names are distinct, so that each
  profile is processed exactly once. The run ends by printing \<open>Encoding complete!\<close>, prints no
  failure message, and the exit status is 0.
\<close>

theorem all_succeed_exit_zero:
  assumes "parse_args argv = Inr a"
      and "set (returncodes (snd (main script_dir proc argv))) \<subseteq> {0}"
  shows "fst (main script_dir proc argv) = 0
     \<and> spawned (snd (main script_dir proc argv)) =
         map (profile_cmd a (os_path_join script_dir ''NeometricAlt-HeavyItalic.ttf''))
             (selected (args_resolutions a))
     \<and> distinct (map fst (selected (args_resolutions a)))
     \<and> last (snd (main script_dir proc argv)) = Print ''Encoding complete!''
     \<and> Print_stderr ''Error: Encoding failed!'' \<notin> set (snd (main script_dir proc argv))"
  using main_cases [OF assms(1), of script_dir proc] assms(2) distinct_selected [of "args_resolutions a"]
  by (auto simp: returncodes_append)

theorem all_succeed_exit_zero_witness:
  "parse_args [''in.mkv'', ''out'', ''--resolutions'', ''720p'', ''480p'', ''360p''] =
   Inr \<lparr>args_x = 20, args_y = 40, args_fontsize = 30, args_fontcolor = ''white@0.5'',
        args_pix_fmt = ''yuv420p'', args_soft = None, args_burn = None, args_lang = ''ar'',
        args_watermark = ''HALASHOW.COM'', args_resolutions = [''720p'', ''480p'', ''360p''],
        args_input = ''in.mkv'', args_output = Str ''out''\<rparr>
   \<and> set (returncodes (snd (main ''/opt'' (\<lambda>n cmd. 0) [''in.mkv'', ''out'', ''--resolutions'', ''720p'', ''480p'', ''360p'']))) \<subseteq> {0}
   \<and> fst (main ''/opt'' (\<lambda>n cmd. 0) [''in.mkv'', ''out'', ''--resolutions'', ''720p'', ''480p'', ''360p'']) = 0
   \<and> length (spawned (snd (main ''/opt'' (\<lambda>n cmd. 0) [''in.mkv'', ''out'', ''--resolutions'', ''720p'', ''480p'', ''360p'']))) = 3
   \<and> last (snd (main ''/opt'' (\<lambda>n cmd. 0) [''in.mkv'', ''out'', ''--resolutions'', ''720p'', ''480p'', ''360p''])) = Print ''Encoding complete!''"
  using all_succeed_exit_zero [OF parse_example, of "''/opt''" "\<lambda>n cmd. 0"]
        parse_example run_example_codes
  by (simp add: selected_def resolutions_def)

text \<open>
  C1. When the command line is accepted and a child process of the run returned a status other
  than 0, this process is the one started for some selected profile \<open>i\<close>, every process before
  it returned 0, the events of the run end with this process followed at once by the message
  \<open>Error: Encoding failed!\<close> on the error stream, and the exit status is 1. The processes
  started are those of the profiles up to \<open>i\<close>: none is started for a later profile.
\<close>

theorem failure_stops_run:
  assumes "parse_args argv = Inr a"
      and "rc \<in> set (returncodes (snd (main script_dir proc argv)))"
      and "rc \<noteq> 0"
  shows "fst (main script_dir proc argv) = 1
     \<and> (\<exists>i pre. i < length (selected (args_resolutions a))
          \<and> snd (main script_dir proc argv) =
              pre @ [Subprocess_run
                       (profile_cmd a (os_path_join script_dir ''NeometricAlt-HeavyItalic.ttf'')
                          (selected (args_resolutions a) ! i)) rc,
                     Print_stderr ''Error: Encoding failed!'']
          \<and> returncodes pre = replicate i 0
          \<and> spawned (snd (main script_dir proc argv)) =
              map (profile_cmd a (os_path_join script_dir ''NeometricAlt-HeavyItalic.ttf''))
                  (take (Suc i) (selected (args_resolutions a))))"
  using main_cases [OF assms(1), of script_dir proc] assms(2,3)
  by (auto simp: returncodes_append spawned_append take_Suc_conv_app_nth)

theorem failure_stops_run_witness:
  "parse_args [''in.mkv'', ''out'', ''--resolutions'', ''720p'', ''480p'', ''360p''] =
   Inr \<lparr>args_x = 20, args_y = 40, args_fontsize = 30, args_fontcolor = ''white@0.5'',
        args_pix_fmt = ''yuv420p'', args_soft = None, args_burn = None, args_lang = ''ar'',
        args_watermark = ''HALASHOW.COM'', args_resolutions = [''720p'', ''480p'', ''360p''],
        args_input = ''in.mkv'', args_output = Str ''out''\<rparr>
   \<and> 1 \<in> set (returncodes (snd (main ''/opt'' (\<lambda>n cmd. if n = 0 then 1 else 0) [''in.mkv'', ''out'', ''--resolutions'', ''720p'', ''480p'', ''360p''])))
   \<and> fst (main ''/opt'' (\<lambda>n cmd. if n = 0 then 1 else 0) [''in.mkv'', ''out'', ''--resolutions'', ''720p'', ''480p'', ''360p'']) = 1
   \<and> map last (spawned (snd (main ''/opt'' (\<lambda>n cmd. if n = 0 then 1 else 0) [''in.mkv'', ''out'', ''--resolutions'', ''720p'', ''480p'', ''360p'']))) =
       [''out_720p.mp4'']"
  using failure_stops_run [OF parse_example, of 1 "''/opt''" "\<lambda>n cmd. if n = 0 then 1 else 0"]
        parse_example failing_example_codes failing_example_files
  by simp



section \<open>What parse\_args accepts\<close>

lemma setattr_Inr:
  assumes "setattr d s ns = Inr ns'"
  shows "args_resolutions ns' = args_resolutions ns"
    and "args_soft ns' = (if d = Soft then Some s else args_soft ns)"
    and "args_burn ns' = (if d = Burn then Some s else args_burn ns)"
  using assms by (cases d; auto split: option.splits)+

lemma store_Inr:
  assumes "store d s st = Inr st'"
  shows "seen_non_default_actions st' =
           (if action_conflicts d = [] then seen_non_default_actions st
            else d # seen_non_default_actions st)"
    and "\<forall>c \<in> set (action_conflicts d). c \<notin> set (seen_non_default_actions st)"
    and "\<exists>ns'. setattr d s (namespace st) = Inr ns' \<and> namespace st' = ns'"
  using assms
  by (auto simp: store_def filter_empty_conv split: sum.splits list.splits)

lemma store_inv:
  assumes "store d s st = Inr st'" and "parse_inv st"
  shows "parse_inv st'"
proof -
  from store_Inr(3) [OF assms(1)] obtain ns' where
    ns': "setattr d s (namespace st) = Inr ns'" "namespace st' = ns'" by blast
  from store_Inr(1,2) [OF assms(1)] setattr_Inr [OF ns'(1)] ns'(2) assms(2)
  show ?thesis
    by (cases d) (auto simp: parse_inv_def action_conflicts_def)
qed

lemma store_not_help: "store d s st \<noteq> Inl Exit_help"
  by (auto simp: store_def split: sum.splits list.splits)

lemma store_resolutions_Inr:
  assumes "store_resolutions vs st = Inr st'"
  shows "seen_non_default_actions st' = seen_non_default_actions st"
    and "set vs \<subseteq> set choices"
    and "namespace st' = (namespace st)\<lparr>args_resolutions := vs\<rparr>"
  using assms
  by (auto simp: store_resolutions_def filter_empty_conv split: list.splits)

lemma store_resolutions_inv:
  assumes "store_resolutions vs st = Inr st'" and "parse_inv st" and "vs \<noteq> []"
  shows "parse_inv st'"
  using store_resolutions_Inr [OF assms(1)] assms(2,3)
  by (auto simp: parse_inv_def)

lemma store_resolutions_not_help: "store_resolutions vs st \<noteq> Inl Exit_help"
  by (auto simp: store_resolutions_def split: list.splits)

lemma drop_leading_args:
  "n \<le> length (takeWhile (\<lambda>t. \<not> is_Opt t) rest) \<Longrightarrow>
   filter is_Opt (drop n rest) = filter is_Opt rest"
proof (induction rest arbitrary: n)
  case Nil
  then show ?case by simp
next
  case (Cons t rest)
  then show ?case by (cases n) (auto split: if_splits)
qed

lemma map_sum_Pair_Inr:
  "map_sum id (Pair k) x = Inr (n, st') \<longleftrightarrow> x = Inr st' \<and> n = k"
  by (cases x) auto

lemma map_sum_Pair_Inl:
  "map_sum id (Pair k) x = Inl e \<longleftrightarrow> x = Inl e"
  by (cases x) auto

lemma consume_optional_cases:
  assumes "consume_optional action os sep ex rest st = Inr (n, st')"
  shows "(action = None \<and> n = 0 \<and> st' = st\<lparr>extras := extras st @ [os]\<rparr>)
       \<or> (\<exists>d s. action = Some (Store d) \<and> store d s st = Inr st'
             \<and> (n = 0 \<or> (n = 1 \<and> (\<exists>r. rest = Arg s # r))))
       \<or> (\<exists>vs. action = Some Store_resolutions \<and> store_resolutions vs st = Inr st' \<and> vs \<noteq> []
             \<and> (n = 0 \<or> n = length (takeWhile (\<lambda>t. \<not> is_Opt t) rest)))"
proof (cases action)
  case None
  with assms show ?thesis by (auto simp: consume_optional_def)
next
  case (Some act)
  show ?thesis
  proof (cases act)
    case Help_action
    with Some assms show ?thesis
      by (auto simp: consume_optional_def split: option.splits if_splits)
  next
    case (Store d)
    with Some assms show ?thesis
      by (auto simp: consume_optional_def map_sum_Pair_Inr split: option.splits list.splits tok.splits)
  next
    case Store_resolutions
    with Some assms show ?thesis
      by (auto simp: consume_optional_def map_sum_Pair_Inr Let_def split: option.splits if_splits)
  qed
qed

lemma consume_optional_Inr:
  assumes "consume_optional action os sep ex rest st = Inr (n, st')"
  shows "filter is_Opt (drop n rest) = filter is_Opt rest"
    and "set (seen_non_default_actions st) \<subseteq> set (seen_non_default_actions st')"
    and "parse_inv st \<Longrightarrow> parse_inv st'"
    and "action = Some (Store d) \<Longrightarrow> action_conflicts d \<noteq> [] \<Longrightarrow> d \<in> set (seen_non_default_actions st')"
    and "action \<noteq> Some Help_action"
proof -
  note c = consume_optional_cases [OF assms]
  from c show "filter is_Opt (drop n rest) = filter is_Opt rest"
    by (elim disjE exE conjE) (auto intro: drop_leading_args)
  from c show "set (seen_non_default_actions st) \<subseteq> set (seen_non_default_actions st')"
    by (elim disjE exE conjE) (auto simp: store_Inr(1) store_resolutions_Inr(1))
  show "parse_inv st'" if inv: "parse_inv st"
    using c inv
    by (elim disjE exE conjE)
       (simp add: parse_inv_def, (blast intro: store_inv store_resolutions_inv)+)
  from c show "action = Some (Store d) \<Longrightarrow> action_conflicts d \<noteq> [] \<Longrightarrow> d \<in> set (seen_non_default_actions st')"
    by (elim disjE exE conjE) (auto simp: store_Inr(1))
  from c show "action \<noteq> Some Help_action"
    by auto
qed

lemma consume_optional_help:
  assumes "consume_optional action os sep ex rest st = Inl Exit_help"
  shows "action = Some Help_action"
proof (cases action)
  case None
  with assms show ?thesis by (simp add: consume_optional_def)
next
  case (Some act)
  with assms show ?thesis
    by (cases act)
       (auto simp: consume_optional_def map_sum_Pair_Inl store_not_help store_resolutions_not_help Let_def
             split: option.splits list.splits tok.splits if_splits)
qed

lemma handled_mono: "set seen \<subseteq> set seen' \<Longrightarrow> handled seen t \<Longrightarrow> handled seen' t"
  by (induction seen t rule: handled.induct) auto

lemma handled_arg: "\<not> is_Opt t \<Longrightarrow> handled seen t"
  by (cases t) auto

lemma loop_post_refl:
  "\<not> list_ex is_Opt pre \<Longrightarrow> loop_post pre st st"
  by (auto simp: loop_post_def list_all_iff list_ex_iff handled_arg)

lemma loop_post_args:
  assumes "loop_post pre1 st1 st'"
      and "seen_non_default_actions st1 = seen_non_default_actions st"
      and "namespace st1 = namespace st"
      and "filter is_Opt pre1 = filter is_Opt pre"
  shows "loop_post pre st st'"
proof -
  have inv: "parse_inv st1 = parse_inv st"
    using assms(2,3) by (simp add: parse_inv_def)
  have "t \<in> set pre1" if "t \<in> set pre" "is_Opt t" for t
    using that arg_cong [OF assms(4), of set] by auto
  then have "handled (seen_non_default_actions st') t"
    if "t \<in> set pre" "list_all (handled (seen_non_default_actions st')) pre1" for t
    using that by (cases "is_Opt t") (auto simp: list_all_iff handled_arg)
  with assms(1) show ?thesis
    unfolding loop_post_def inv assms(2) by (auto simp: list_all_iff)
qed

lemma loop_post_option:
  assumes "loop_post (drop n rest) st1 st'"
      and "consume_optional action os sep ex rest st = Inr (n, st1)"
  shows "loop_post (Opt action os sep ex # rest) st st'"
proof -
  note c = consume_optional_Inr [OF assms(2)]
  from assms(1) have sub: "set (seen_non_default_actions st1) \<subseteq> set (seen_non_default_actions st')"
    and inv: "\<not> parse_inv st1 \<or> parse_inv st'"
    and all: "list_all (handled (seen_non_default_actions st')) (drop n rest)"
    by (auto simp: loop_post_def)
  have "t \<in> set (drop n rest)" if "t \<in> set rest" "is_Opt t" for t
    using that arg_cong [OF c(1), of set] by auto
  with all have rest: "handled (seen_non_default_actions st') t" if "t \<in> set rest" for t
    using that by (cases "is_Opt t") (auto simp: list_all_iff handled_arg)
  have "handled (seen_non_default_actions st1) (Opt action os sep ex)"
  proof (cases action)
    case None
    then show ?thesis by simp
  next
    case (Some act)
    with c(4,5) show ?thesis by (cases act) auto
  qed
  with sub have "handled (seen_non_default_actions st') (Opt action os sep ex)"
    by (rule handled_mono)
  with rest c(2,3) sub inv show ?thesis
    by (auto simp: loop_post_def list_all_iff)
qed

lemma filter_Opt_dropWhile:
  "filter is_Opt (dropWhile (\<lambda>t. \<not> is_Opt t) r) = filter is_Opt r"
  by (induction r) auto

lemma parse_loop_post:
  "parse_loop pre st = Inr (rest, st') \<Longrightarrow> loop_post pre st st'"
proof (induction pre st arbitrary: rest st' rule: parse_loop.induct)
  case (1 pre st)
  note prems = "1.prems"
  show ?case
  proof (cases "list_ex is_Opt pre")
    case False
    with prems have "st' = st" by (subst (asm) parse_loop.simps) simp
    with False show ?thesis by (simp add: loop_post_refl)
  next
    case True
    then obtain t r where pre: "pre = t # r" by (cases pre) auto
    show ?thesis
    proof (cases t)
      case (Opt action os sep ex)
      from prems True pre Opt obtain n st1 where
        c: "consume_optional action os sep ex r st = Inr (n, st1)" and
        l: "parse_loop (drop n r) st1 = Inr (rest, st')"
        by (subst (asm) parse_loop.simps) (auto split: sum.splits)
      from True have "\<not> \<not> list_ex is_Opt pre" by simp
      from "1.IH"(6) [OF this pre Opt c refl l] c show ?thesis
        unfolding pre Opt by (rule loop_post_option)
    next
      case (Arg a)
      from True have nn: "\<not> \<not> list_ex is_Opt pre" by simp
      show ?thesis
      proof (cases "ns_input st")
        case None
        show ?thesis
        proof (cases r)
          case Nil
          with True pre Arg show ?thesis by simp
        next
          case (Cons t2 r2)
          show ?thesis
          proof (cases t2)
            case (Arg b)
            from prems True pre \<open>t = Arg a\<close> None Cons Arg
            have "parse_loop r2 (st\<lparr>ns_input := Some a, ns_output := Some (Str b)\<rparr>) = Inr (rest, st')"
              by (subst (asm) parse_loop.simps) simp
            from "1.IH"(2) [OF nn pre \<open>t = Arg a\<close> None Cons Arg this]
            show ?thesis
              by (rule loop_post_args) (simp_all add: pre \<open>t = Arg a\<close> Cons Arg)
          next
            case (Opt action os sep ex)
            from prems True pre Arg None Cons Opt
            have "parse_loop r (st\<lparr>ns_input := Some a\<rparr>) = Inr (rest, st')"
              by (subst (asm) parse_loop.simps) simp
            from "1.IH"(3) [OF nn pre Arg None Cons Opt this]
            show ?thesis
              by (rule loop_post_args) (simp_all add: pre Arg)
          qed
        qed
      next
        case (Some i)
        show ?thesis
        proof (cases "ns_output st")
          case None
          from prems True pre Arg Some None
          have "parse_loop r (st\<lparr>ns_output := Some (Str a)\<rparr>) = Inr (rest, st')"
            by (subst (asm) parse_loop.simps) simp
          from "1.IH"(4) [OF nn pre Arg Some None this]
          show ?thesis
            by (rule loop_post_args) (simp_all add: pre Arg)
        next
          case (Some out)
          from prems True pre Arg \<open>ns_input st = Some i\<close> Some
          have "parse_loop (dropWhile (\<lambda>t. \<not> is_Opt t) r)
                  (st\<lparr>extras := extras st @ a # map tok_string (takeWhile (\<lambda>t. \<not> is_Opt t) r)\<rparr>) =
                Inr (rest, st')"
            by (subst (asm) parse_loop.simps) simp
          from "1.IH"(5) [OF nn pre Arg \<open>ns_input st = Some i\<close> Some this]
          show ?thesis
            by (rule loop_post_args) (simp_all add: pre Arg filter_Opt_dropWhile)
        qed
      qed
    qed
  qed
qed

lemma parse_loop_help:
  "parse_loop pre st = Inl Exit_help \<Longrightarrow> \<exists>os sep ex. Opt (Some Help_action) os sep ex \<in> set pre"
proof (induction pre st rule: parse_loop.induct)
  case (1 pre st)
  note prems = "1.prems"
  show ?case
  proof (cases "list_ex is_Opt pre")
    case False
    with prems show ?thesis by (subst (asm) parse_loop.simps) simp
  next
    case True
    then have nn: "\<not> \<not> list_ex is_Opt pre" by simp
    from True obtain t r where pre: "pre = t # r" by (cases pre) auto
    show ?thesis
    proof (cases t)
      case (Opt action os sep ex)
      show ?thesis
      proof (cases "consume_optional action os sep ex r st")
        case (Inl e)
        with prems True pre Opt have "e = Exit_help"
          by (subst (asm) parse_loop.simps) simp
        with Inl have "action = Some Help_action" by (simp add: consume_optional_help)
        with pre Opt show ?thesis by auto
      next
        case (Inr b)
        obtain n st1 where b: "b = (n, st1)" by (cases b)
        with prems True pre Opt Inr have "parse_loop (drop n r) st1 = Inl Exit_help"
          by (subst (asm) parse_loop.simps) simp
        from "1.IH"(6) [OF nn pre Opt Inr b [symmetric] this] obtain os' sep' ex' where
          "Opt (Some Help_action) os' sep' ex' \<in> set (drop n r)" by blast
        then have "Opt (Some Help_action) os' sep' ex' \<in> set pre"
          unfolding pre by (auto dest: in_set_dropD)
        then show ?thesis by blast
      qed
    next
      case (Arg a)
      show ?thesis
      proof (cases "ns_input st")
        case None
        show ?thesis
        proof (cases r)
          case Nil
          with True pre Arg show ?thesis by simp
        next
          case (Cons t2 r2)
          show ?thesis
          proof (cases t2)
            case (Arg b)
            from prems True pre \<open>t = Arg a\<close> None Cons Arg
            have "parse_loop r2 (st\<lparr>ns_input := Some a, ns_output := Some (Str b)\<rparr>) = Inl Exit_help"
              by (subst (asm) parse_loop.simps) simp
            from "1.IH"(2) [OF nn pre \<open>t = Arg a\<close> None Cons Arg this]
            show ?thesis unfolding pre Cons by auto
          next
            case (Opt action os sep ex)
            from prems True pre Arg None Cons Opt
            have "parse_loop r (st\<lparr>ns_input := Some a\<rparr>) = Inl Exit_help"
              by (subst (asm) parse_loop.simps) simp
            from "1.IH"(3) [OF nn pre Arg None Cons Opt this]
            show ?thesis unfolding pre by auto
          qed
        qed
      next
        case (Some i)
        show ?thesis
        proof (cases "ns_output st")
          case None
          from prems True pre Arg Some None
          have "parse_loop r (st\<lparr>ns_output := Some (Str a)\<rparr>) = Inl Exit_help"
            by (subst (asm) parse_loop.simps) simp
          from "1.IH"(4) [OF nn pre Arg Some None this]
          show ?thesis unfolding pre by auto
        next
          case (Some out)
          from prems True pre Arg \<open>ns_input st = Some i\<close> Some
          have "parse_loop (dropWhile (\<lambda>t. \<not> is_Opt t) r)
                  (st\<lparr>extras := extras st @ a # map tok_string (takeWhile (\<lambda>t. \<not> is_Opt t) r)\<rparr>) =
                Inl Exit_help"
            by (subst (asm) parse_loop.simps) simp
          from "1.IH"(5) [OF nn pre Arg \<open>ns_input st = Some i\<close> Some this]
          show ?thesis unfolding pre by (auto dest: set_dropWhileD)
        qed
      qed
    qed
  qed
qed

lemma classify_Inr:
  "classify ss = Inr toks \<Longrightarrow> list_all2 (\<lambda>s t. parse_optional s = Inr t) ss toks"
  by (induction ss arbitrary: toks) (auto split: sum.splits)

lemma classified_supplied:
  assumes "classify ss = Inr toks"
  shows "list_ex (\<lambda>s. selects a (parse_optional s)) ss \<longleftrightarrow>
         (\<exists>os sep ex. Opt (Some a) os sep ex \<in> set toks)"
  using classify_Inr [OF assms]
proof (induction rule: list_all2_induct)
  case Nil
  then show ?case by simp
next
  case (Cons s ss t ts)
  have "selects a (Inr t) \<longleftrightarrow> (\<exists>os sep ex. t = Opt (Some a) os sep ex)"
    by (cases "(a, Inr t :: argparse_error + tok)" rule: selects.cases) auto
  with Cons show ?case by auto
qed

lemma namespace_consume_positionals:
  "namespace (consume_positionals as post st) = namespace st"
  by (simp add: consume_positionals_def split: option.splits prod.splits)

lemma args_of_extend:
  "args_soft (optionals.extend ns m) = args_soft ns"
  "args_burn (optionals.extend ns m) = args_burn ns"
  "args_resolutions (optionals.extend ns m) = args_resolutions ns"
  by (simp_all add: optionals.defs)

lemma parse_inv_initial:
  "parse_inv \<lparr>namespace = defaults, ns_input = None, ns_output = None,
              seen_non_default_actions = [], extras = []\<rparr>"
  by (simp add: parse_inv_def defaults_def choices_def)

lemma parse_args_Inr:
  assumes "parse_args argv = Inr a"
  shows "\<exists>toks rest st'.
           classify (takeWhile (\<lambda>s. s \<noteq> ''--'') argv) = Inr toks
           \<and> parse_loop toks \<lparr>namespace = defaults, ns_input = None, ns_output = None,
                                seen_non_default_actions = [], extras = []\<rparr> = Inr (rest, st')
           \<and> args_soft a = args_soft (namespace st')
           \<and> args_burn a = args_burn (namespace st')
           \<and> args_resolutions a = args_resolutions (namespace st')"
  using assms
  by (auto simp: parse_args_def Let_def namespace_consume_positionals args_of_extend
           split: sum.splits option.splits if_splits prod.splits)

lemma parse_args_help:
  assumes "parse_args argv = Inl Exit_help"
  shows "supplies Help_action argv"
proof -
  from assms obtain toks where
    c: "classify (takeWhile (\<lambda>s. s \<noteq> ''--'') argv) = Inr toks" and
    l: "parse_loop toks \<lparr>namespace = defaults, ns_input = None, ns_output = None,
                          seen_non_default_actions = [], extras = []\<rparr> = Inl Exit_help"
    by (auto simp: parse_args_def Let_def split: sum.splits option.splits if_splits prod.splits)
  from parse_loop_help [OF l] classified_supplied [OF c, of Help_action]
  show ?thesis by (simp add: supplies_def)
qed

lemma parse_args_inv:
  assumes "parse_args argv = Inr a"
  shows "\<exists>toks st'.
           classify (takeWhile (\<lambda>s. s \<noteq> ''--'') argv) = Inr toks
           \<and> parse_inv st'
           \<and> list_all (handled (seen_non_default_actions st')) toks
           \<and> args_soft a = args_soft (namespace st')
           \<and> args_burn a = args_burn (namespace st')
           \<and> args_resolutions a = args_resolutions (namespace st')"
proof -
  from parse_args_Inr [OF assms] obtain toks rest st' where
    c: "classify (takeWhile (\<lambda>s. s \<noteq> ''--'') argv) = Inr toks" and
    l: "parse_loop toks \<lparr>namespace = defaults, ns_input = None, ns_output = None,
                          seen_non_default_actions = [], extras = []\<rparr> = Inr (rest, st')" and
    a: "args_soft a = args_soft (namespace st')" "args_burn a = args_burn (namespace st')"
       "args_resolutions a = args_resolutions (namespace st')"
    by blast
  from parse_loop_post [OF l] parse_inv_initial
  have "parse_inv st'" "list_all (handled (seen_non_default_actions st')) toks"
    by (auto simp: loop_post_def)
  with c a show ?thesis by blast
qed

lemma parse_args_not_both:
  assumes "supplies (Store Soft) argv" and "supplies (Store Burn) argv"
  shows "\<exists>e. parse_args argv = Inl e"
proof (cases "parse_args argv")
  case (Inl e)
  then show ?thesis by blast
next
  case (Inr a)
  from parse_args_inv [OF Inr] obtain toks st' where
    c: "classify (takeWhile (\<lambda>s. s \<noteq> ''--'') argv) = Inr toks" and
    inv: "parse_inv st'" and
    h: "list_all (handled (seen_non_default_actions st')) toks"
    by blast
  from assms classified_supplied [OF c] obtain os1 sep1 ex1 os2 sep2 ex2 where
    "Opt (Some (Store Soft)) os1 sep1 ex1 \<in> set toks"
    "Opt (Some (Store Burn)) os2 sep2 ex2 \<in> set toks"
    unfolding supplies_def by blast
  with h have "Soft \<in> set (seen_non_default_actions st')" "Burn \<in> set (seen_non_default_actions st')"
    by (auto simp: list_all_iff action_conflicts_def)
  with inv show ?thesis by (simp add: parse_inv_def)
qed

lemma main_rejected:
  assumes "parse_args argv = Inl e"
  shows "spawned (snd (main script_dir proc argv)) = []"
    and "supplies Help_action argv \<or> (\<exists>e'. main script_dir proc argv = (2, [Argparse_error e']))"
proof -
  show "spawned (snd (main script_dir proc argv)) = []"
    using assms by (cases e) (simp_all add: main_def)
  show "supplies Help_action argv \<or> (\<exists>e'. main script_dir proc argv = (2, [Argparse_error e']))"
  proof (cases e)
    case Exit_help
    with assms show ?thesis by (simp add: parse_args_help)
  next
    case (Exit_error e')
    with assms show ?thesis by (simp add: main_def)
  qed
qed

text \<open>
  C2. A command line that supplies both \<open>--soft\<close> and \<open>--burn\<close> is never accepted:
  \<open>parse_args\<close> ends the program and no child process is started. The program ends with a
  usage error and exit status 2, unless the command line also supplies the help option, whose
  action ends the program when it is reached. Accordingly, the namespace of an accepted
  command line never has both \<open>soft\<close> and \<open>burn\<close> set.
\<close>

theorem soft_burn_exclusive:
  "(supplies (Store Soft) argv \<and> supplies (Store Burn) argv \<longrightarrow>
      (\<exists>e. parse_args argv = Inl e)
      \<and> spawned (snd (main script_dir proc argv)) = []
      \<and> (supplies Help_action argv \<or> (\<exists>e. main script_dir proc argv = (2, [Argparse_error e]))))
   \<and> (\<forall>a. parse_args argv = Inr a \<longrightarrow> args_soft a = None \<or> args_burn a = None)"
proof (intro conjI impI allI)
  assume "supplies (Store Soft) argv \<and> supplies (Store Burn) argv"
  then obtain e where e: "parse_args argv = Inl e"
    using parse_args_not_both by blast
  then show "\<exists>e. parse_args argv = Inl e" by blast
  from main_rejected [OF e]
  show "spawned (snd (main script_dir proc argv)) = []"
    and "supplies Help_action argv \<or> (\<exists>e. main script_dir proc argv = (2, [Argparse_error e]))"
    by blast+
next
  fix a assume "parse_args argv = Inr a"
  from parse_args_inv [OF this] show "args_soft a = None \<or> args_burn a = None"
    by (auto simp: parse_inv_def)
qed

lemma rejected_example:
  "parse_args [''in.mkv'', ''out'', ''--soft'', ''a.srt'', ''--burn'', ''b.srt''] =
   Inl (Exit_error (Not_allowed_with (Store Burn) (Store Soft)))"
  by code_simp

lemma supplied_example:
  "supplies (Store Soft) [''in.mkv'', ''out'', ''--soft'', ''a.srt'', ''--burn'', ''b.srt'']"
  "supplies (Store Burn) [''in.mkv'', ''out'', ''--soft'', ''a.srt'', ''--burn'', ''b.srt'']"
  "\<not> supplies Help_action [''in.mkv'', ''out'', ''--soft'', ''a.srt'', ''--burn'', ''b.srt'']"
  by code_simp+

lemma soft_example:
  "parse_args [''in.mkv'', ''out'', ''--soft'', ''a.srt''] =
   Inr \<lparr>args_x = 20, args_y = 40, args_fontsize = 30, args_fontcolor = ''white@0.5'',
        args_pix_fmt = ''yuv420p'', args_soft = Some ''a.srt'', args_burn = None, args_lang = ''ar'',
        args_watermark = ''HALASHOW.COM'', args_resolutions = [''all''],
        args_input = ''in.mkv'', args_output = Str ''out''\<rparr>"
  by code_simp

theorem soft_burn_exclusive_witness:
  "supplies (Store Soft) [''in.mkv'', ''out'', ''--soft'', ''a.srt'', ''--burn'', ''b.srt'']
   \<and> supplies (Store Burn) [''in.mkv'', ''out'', ''--soft'', ''a.srt'', ''--burn'', ''b.srt'']
   \<and> main ''/opt'' (\<lambda>n cmd. 0) [''in.mkv'', ''out'', ''--soft'', ''a.srt'', ''--burn'', ''b.srt''] =
       (2, [Argparse_error (Not_allowed_with (Store Burn) (Store Soft))])
   \<and> (\<exists>a. parse_args [''in.mkv'', ''out'', ''--soft'', ''a.srt''] = Inr a
           \<and> args_soft a = Some ''a.srt'' \<and> args_burn a = None)"
  using soft_burn_exclusive [of "[''in.mkv'', ''out'', ''--soft'', ''a.srt'', ''--burn'', ''b.srt'']"
          "''/opt''" "\<lambda>n cmd. 0"]
        soft_burn_exclusive [of "[''in.mkv'', ''out'', ''--soft'', ''a.srt'']" "''/opt''" "\<lambda>n cmd. 0"]
        supplied_example rejected_example soft_example
  by (simp add: main_def)

lemma selected_drops_unknown:
  assumes "map_of resolutions r = None" and "r \<noteq> ''all''"
  shows "selected (rs1 @ r # rs2) = selected (rs1 @ rs2)"
  using assms by (simp add: selected_def)

section \<open>Names that are not profiles\<close>

lemma parse_optional_Arg: "parse_optional s = Inr (Arg s') \<Longrightarrow> s' = s"
  by (auto simp: parse_optional_def split: if_splits option.splits prod.splits list.splits)

lemma classify_arguments:
  "list_all2 (\<lambda>s t. parse_optional s = Inr t) ss toks \<Longrightarrow>
   takeWhile is_argument ss = map tok_string (takeWhile (\<lambda>t. \<not> is_Opt t) toks)"
proof (induction rule: list_all2_induct)
  case Nil
  then show ?case by simp
next
  case (Cons s ss t ts)
  then show ?case
    by (cases t) (auto simp: is_argument_def dest: parse_optional_Arg)
qed

lemma resolution_arguments_consumed:
  assumes "consume_optional action os sep ex rest st = Inr (n, st')"
  shows "set (given_to_resolutions (Inr (Opt action os sep ex))
                (map tok_string (takeWhile (\<lambda>t. \<not> is_Opt t) rest))) \<subseteq> set choices"
    and "n \<le> length (takeWhile (\<lambda>t. \<not> is_Opt t) rest)"
proof -
  note c = consume_optional_cases [OF assms]
  from c show "n \<le> length (takeWhile (\<lambda>t. \<not> is_Opt t) rest)"
    by (elim disjE exE conjE) auto
  show "set (given_to_resolutions (Inr (Opt action os sep ex))
                (map tok_string (takeWhile (\<lambda>t. \<not> is_Opt t) rest))) \<subseteq> set choices"
  proof (cases "action = Some Store_resolutions")
    case True
    with assms show ?thesis
      by (cases ex)
         (auto simp: consume_optional_def map_sum_Pair_Inr Let_def
               dest!: store_resolutions_Inr(2) split: if_splits)
  next
    case False
    then show ?thesis
      by (cases "(Inr (Opt action os sep ex) :: argparse_error + tok,
                   map tok_string (takeWhile (\<lambda>t. \<not> is_Opt t) rest))"
                rule: given_to_resolutions.cases) auto
  qed
qed


lemma resolution_values_Arg [simp]: "resolution_values (Arg s # ts) = resolution_values ts"
  by simp

lemma resolution_values_args: "\<not> list_ex is_Opt pre \<Longrightarrow> resolution_values pre = []"
proof (induction pre)
  case Nil
  then show ?case by simp
next
  case (Cons t pre)
  then show ?case by (cases t) auto
qed

lemma resolution_values_drop:
  "n \<le> length (takeWhile (\<lambda>t. \<not> is_Opt t) rest) \<Longrightarrow>
   resolution_values (drop n rest) = resolution_values rest"
proof (induction rest arbitrary: n)
  case Nil
  then show ?case by simp
next
  case (Cons t rest)
  show ?case
  proof (cases n)
    case 0
    then show ?thesis by simp
  next
    case (Suc m)
    with Cons.prems obtain s where t: "t = Arg s" and m: "m \<le> length (takeWhile (\<lambda>t. \<not> is_Opt t) rest)"
      by (cases t) (auto split: if_splits)
    from Cons.IH [OF m] Suc t show ?thesis by simp
  qed
qed

lemma resolution_values_dropWhile:
  "resolution_values (dropWhile (\<lambda>t. \<not> is_Opt t) r) = resolution_values r"
proof (induction r)
  case Nil
  then show ?case by simp
next
  case (Cons t r)
  then show ?case by (cases t) auto
qed

lemma parse_loop_resolutions:
  "parse_loop pre st = Inr (rest, st') \<Longrightarrow> set (resolution_values pre) \<subseteq> set choices"
proof (induction pre st arbitrary: rest st' rule: parse_loop.induct)
  case (1 pre st)
  note prems = "1.prems"
  show ?case
  proof (cases "list_ex is_Opt pre")
    case False
    then show ?thesis by (simp add: resolution_values_args)
  next
    case True
    then have nn: "\<not> \<not> list_ex is_Opt pre" by simp
    from True obtain t r where pre: "pre = t # r" by (cases pre) auto
    show ?thesis
    proof (cases t)
      case (Opt action os sep ex)
      from prems True pre Opt obtain n st1 where
        c: "consume_optional action os sep ex r st = Inr (n, st1)" and
        l: "parse_loop (drop n r) st1 = Inr (rest, st')"
        by (subst (asm) parse_loop.simps) (auto split: sum.splits)
      from "1.IH"(6) [OF nn pre Opt c refl l] resolution_arguments_consumed [OF c]
      show ?thesis
        unfolding pre Opt by (simp add: resolution_values_drop)
    next
      case (Arg a)
      show ?thesis
      proof (cases "ns_input st")
        case None
        show ?thesis
        proof (cases r)
          case Nil
          with True pre Arg show ?thesis by simp
        next
          case (Cons t2 r2)
          show ?thesis
          proof (cases t2)
            case (Arg b)
            from prems True pre \<open>t = Arg a\<close> None Cons Arg
            have "parse_loop r2 (st\<lparr>ns_input := Some a, ns_output := Some (Str b)\<rparr>) = Inr (rest, st')"
              by (subst (asm) parse_loop.simps) simp
            from "1.IH"(2) [OF nn pre \<open>t = Arg a\<close> None Cons Arg this]
            show ?thesis by (simp add: pre \<open>t = Arg a\<close> Cons Arg)
          next
            case (Opt action os sep ex)
            from prems True pre Arg None Cons Opt
            have "parse_loop r (st\<lparr>ns_input := Some a\<rparr>) = Inr (rest, st')"
              by (subst (asm) parse_loop.simps) simp
            from "1.IH"(3) [OF nn pre Arg None Cons Opt this]
            show ?thesis by (simp add: pre Arg)
          qed
        qed
      next
        case (Some i)
        show ?thesis
        proof (cases "ns_output st")
          case None
          from prems True pre Arg Some None
          have "parse_loop r (st\<lparr>ns_output := Some (Str a)\<rparr>) = Inr (rest, st')"
            by (subst (asm) parse_loop.simps) simp
          from "1.IH"(4) [OF nn pre Arg Some None this]
          show ?thesis by (simp add: pre Arg)
        next
          case (Some out)
          from prems True pre Arg \<open>ns_input st = Some i\<close> Some
          have "parse_loop (dropWhile (\<lambda>t. \<not> is_Opt t) r)
                  (st\<lparr>extras := extras st @ a # map tok_string (takeWhile (\<lambda>t. \<not> is_Opt t) r)\<rparr>) =
                Inr (rest, st')"
            by (subst (asm) parse_loop.simps) simp
          from "1.IH"(5) [OF nn pre Arg \<open>ns_input st = Some i\<close> Some this]
          show ?thesis by (simp add: pre Arg resolution_values_dropWhile)
        qed
      qed
    qed
  qed
qed

lemma classified_resolutions:
  "list_all2 (\<lambda>s t. parse_optional s = Inr t) ss toks \<Longrightarrow>
   resolution_arguments ss = resolution_values toks"
proof (induction rule: list_all2_induct)
  case Nil
  then show ?case by simp
next
  case (Cons s ss t ts)
  then show ?case by (simp add: classify_arguments)
qed

lemma parse_args_requested:
  assumes "parse_args argv = Inr a"
  shows "set (requested_resolutions argv) \<subseteq> set choices"
proof -
  from parse_args_Inr [OF assms] obtain toks rest st' where
    c: "classify (takeWhile (\<lambda>s. s \<noteq> ''--'') argv) = Inr toks" and
    l: "parse_loop toks \<lparr>namespace = defaults, ns_input = None, ns_output = None,
                          seen_non_default_actions = [], extras = []\<rparr> = Inr (rest, st')"
    by blast
  from classified_resolutions [OF classify_Inr [OF c]] parse_loop_resolutions [OF l]
  show ?thesis by (simp add: requested_resolutions_def)
qed

lemma separator_is_no_argument: "is_argument s \<Longrightarrow> s \<noteq> ''--''"
proof
  assume "is_argument s" and "s = ''--''"
  moreover have "parse_optional ''--'' = Inl (Ambiguous_option ''--'')" by code_simp
  ultimately show False by (simp add: is_argument_def)
qed

lemma classify_arguments_only: "list_all is_argument rs \<Longrightarrow> classify rs = Inr (map Arg rs)"
  by (induction rs) (simp_all add: is_argument_def)

lemma arguments_until_option:
  "takeWhile (\<lambda>t. \<not> is_Opt t) (map Arg rs) = map Arg rs"
  "map (tok_string \<circ> Arg) rs = rs"
  by (induction rs) simp_all

lemma resolutions_option:
  "parse_optional ''--resolutions'' = Inr (Opt (Some Store_resolutions) ''--resolutions'' None None)"
  by code_simp

lemma first_unknown_resolution:
  assumes "is_argument i" and "is_argument out" and "list_all is_argument rs"
      and "filter (\<lambda>v. v \<notin> set choices) rs = v # vs"
  shows "parse_args (i # out # ''--resolutions'' # rs) =
         Inl (Exit_error (Invalid_choice Store_resolutions v))"
proof -
  let ?toks = "Arg i # Arg out # Opt (Some Store_resolutions) ''--resolutions'' None None # map Arg rs"
  from assms(1-3) have "\<forall>s \<in> set (i # out # ''--resolutions'' # rs). s \<noteq> ''--''"
    by (auto simp: list_all_iff dest: separator_is_no_argument)
  then have pre: "takeWhile (\<lambda>s. s \<noteq> ''--'') (i # out # ''--resolutions'' # rs) =
                  i # out # ''--resolutions'' # rs"
    and post: "dropWhile (\<lambda>s. s \<noteq> ''--'') (i # out # ''--resolutions'' # rs) = []"
    by (simp_all only: takeWhile_eq_all_conv dropWhile_eq_Nil_conv)
  from assms(1-3) have c: "classify (i # out # ''--resolutions'' # rs) = Inr ?toks"
    by (simp add: is_argument_def resolutions_option classify_arguments_only)
  from assms(4) have rs: "rs \<noteq> []" by auto
  have "parse_loop ?toks \<lparr>namespace = defaults, ns_input = None, ns_output = None,
                           seen_non_default_actions = [], extras = []\<rparr> =
        Inl (Exit_error (Invalid_choice Store_resolutions v))"
    apply (subst parse_loop.simps)
    apply simp
    apply (subst parse_loop.simps)
    apply (simp add: consume_optional_def arguments_until_option rs store_resolutions_def assms(4))
    done
  with c show ?thesis
    by (simp only: parse_args_def pre post Let_def) simp
qed

lemma main_first_unknown_resolution:
  assumes "is_argument i" and "is_argument out" and "list_all is_argument rs"
      and "filter (\<lambda>v. v \<notin> {''all'', ''1080p'', ''720p'', ''480p'', ''360p''}) rs = v # vs"
  shows "main script_dir proc (i # out # ''--resolutions'' # rs) =
         (2, [Argparse_error (Invalid_choice Store_resolutions v)])"
proof -
  from assms(4) have "filter (\<lambda>v. v \<notin> set choices) rs = v # vs"
    by (simp add: choices_def)
  from first_unknown_resolution [OF assms(1-3) this] show ?thesis
    by (simp add: main_def)
qed

lemma unknown_example:
  "''4k'' \<in> set (requested_resolutions [''in.mkv'', ''out'', ''--resolutions'', ''720p'', ''4k''])"
  "is_argument ''in.mkv''"
  "is_argument ''out''"
  "list_all is_argument [''720p'', ''4k'']"
  by code_simp+

text \<open>
  C5. A requested name that is not one of \<open>all\<close>, 1080p, 720p, 480p, 360p is never dropped in
  silence: \<open>--resolutions\<close> is declared with \<open>choices\<close>, and a command line that hands it such a
  name, at any of its occurrences, is never accepted. \<open>parse_args\<close> ends the program and no
  child process is started; the program ends with a usage error and exit status 2, unless the
  command line also supplies the help option. When the names follow the two positionals as the
  arguments of \<open>--resolutions\<close>, the usage error is \<open>invalid choice\<close> for the first name that is
  not a choice. So every accepted command line requests a non-empty list of choices. Only the
  selection expression by itself drops a name that is not in the table, without raising.
\<close>

theorem unknown_resolution_names:
  "(r \<in> set (requested_resolutions argv) \<and> r \<notin> {''all'', ''1080p'', ''720p'', ''480p'', ''360p''} \<longrightarrow>
      (\<exists>e. parse_args argv = Inl e)
      \<and> spawned (snd (main script_dir proc argv)) = []
      \<and> (supplies Help_action argv \<or> (\<exists>e. main script_dir proc argv = (2, [Argparse_error e]))))
   \<and> (is_argument i \<and> is_argument out \<and> list_all is_argument rs
       \<and> filter (\<lambda>v. v \<notin> {''all'', ''1080p'', ''720p'', ''480p'', ''360p''}) rs = v # vs \<longrightarrow>
        main script_dir proc (i # out # ''--resolutions'' # rs) =
        (2, [Argparse_error (Invalid_choice Store_resolutions v)]))
   \<and> (\<forall>a. parse_args argv = Inr a \<longrightarrow>
        args_resolutions a \<noteq> [] \<and>
        set (args_resolutions a) \<subseteq> {''all'', ''1080p'', ''720p'', ''480p'', ''360p''})
   \<and> (r \<notin> {''all'', ''1080p'', ''720p'', ''480p'', ''360p''} \<longrightarrow>
        selected (rs1 @ r # rs2) = selected (rs1 @ rs2))"
proof (intro conjI impI allI)
  assume r: "r \<in> set (requested_resolutions argv) \<and>
             r \<notin> {''all'', ''1080p'', ''720p'', ''480p'', ''360p''}"
  have "\<exists>e. parse_args argv = Inl e"
  proof (cases "parse_args argv")
    case (Inl e)
    then show ?thesis by blast
  next
    case (Inr a)
    from parse_args_requested [OF Inr] r show ?thesis by (auto simp: choices_def)
  qed
  then obtain e where e: "parse_args argv = Inl e" by blast
  then show "\<exists>e. parse_args argv = Inl e" by blast
  from main_rejected [OF e]
  show "spawned (snd (main script_dir proc argv)) = []"
    and "supplies Help_action argv \<or> (\<exists>e. main script_dir proc argv = (2, [Argparse_error e]))"
    by blast+
next
  assume "is_argument i \<and> is_argument out \<and> list_all is_argument rs
          \<and> filter (\<lambda>v. v \<notin> {''all'', ''1080p'', ''720p'', ''480p'', ''360p''}) rs = v # vs"
  then show "main script_dir proc (i # out # ''--resolutions'' # rs) =
             (2, [Argparse_error (Invalid_choice Store_resolutions v)])"
    by (blast intro: main_first_unknown_resolution)
next
  fix a assume "parse_args argv = Inr a"
  from parse_args_inv [OF this]
  show "args_resolutions a \<noteq> []"
    and "set (args_resolutions a) \<subseteq> {''all'', ''1080p'', ''720p'', ''480p'', ''360p''}"
    by (auto simp: parse_inv_def choices_def)
next
  assume "r \<notin> {''all'', ''1080p'', ''720p'', ''480p'', ''360p''}"
  then have "map_of resolutions r = None" "r \<noteq> ''all''"
    by (auto simp: resolutions_def)
  then show "selected (rs1 @ r # rs2) = selected (rs1 @ rs2)"
    by (rule selected_drops_unknown)
qed

text \<open>
  \<open>encode.py in.mkv out --resolutions 4k\<close> is rejected: the program ends with the usage error
  \<open>invalid choice\<close> and exit status 2, and nothing is dispatched.
\<close>

theorem unknown_resolution_rejected_counterexample:
  "parse_args [''in.mkv'', ''out'', ''--resolutions'', ''4k''] =
     Inl (Exit_error (Invalid_choice Store_resolutions ''4k''))
   \<and> main ''/opt'' (\<lambda>n cmd. 0) [''in.mkv'', ''out'', ''--resolutions'', ''4k''] =
     (2, [Argparse_error (Invalid_choice Store_resolutions ''4k'')])"
proof -
  have "parse_args [''in.mkv'', ''out'', ''--resolutions'', ''4k''] =
     Inl (Exit_error (Invalid_choice Store_resolutions ''4k''))"
    by code_simp
  then show ?thesis by (simp add: main_def)
qed

theorem unknown_resolution_names_witness:
  "''4k'' \<in> set (requested_resolutions [''in.mkv'', ''out'', ''--resolutions'', ''720p'', ''4k''])
   \<and> ''4k'' \<notin> {''all'', ''1080p'', ''720p'', ''480p'', ''360p''}
   \<and> is_argument ''in.mkv'' \<and> is_argument ''out'' \<and> list_all is_argument [''720p'', ''4k'']
   \<and> filter (\<lambda>v. v \<notin> {''all'', ''1080p'', ''720p'', ''480p'', ''360p''}) [''720p'', ''4k''] = [''4k'']
   \<and> spawned (snd (main ''/opt'' (\<lambda>n cmd. 0) [''in.mkv'', ''out'', ''--resolutions'', ''720p'', ''4k''])) = []
   \<and> main ''/opt'' (\<lambda>n cmd. 0) [''in.mkv'', ''out'', ''--resolutions'', ''720p'', ''4k''] =
       (2, [Argparse_error (Invalid_choice Store_resolutions ''4k'')])
   \<and> (\<exists>a. parse_args [''in.mkv'', ''out'', ''--resolutions'', ''720p'', ''480p'', ''360p''] = Inr a
        \<and> args_resolutions a = [''720p'', ''480p'', ''360p''])
   \<and> selected [''720p'', ''4k'', ''360p''] = selected [''720p'', ''360p'']"
  using unknown_resolution_names [of "''4k''" "[''in.mkv'', ''out'', ''--resolutions'', ''720p'', ''4k'']"
          "''/opt''" "\<lambda>n cmd. 0" "''in.mkv''" "''out''" "[''720p'', ''4k'']" "''4k''" "[]"
          "[''720p'']" "[''360p'']"]
        unknown_resolution_names [of "''4k''"
          "[''in.mkv'', ''out'', ''--resolutions'', ''720p'', ''480p'', ''360p'']"
          "''/opt''" "\<lambda>n cmd. 0" "''in.mkv''" "''out''" "[''720p'', ''4k'']" "''4k''" "[]"
          "[''720p'']" "[''360p'']"]
        unknown_example parse_example
  by simp

end
